theory Spec2Isabelle
  imports Main "HOL-Library.Word"
begin

section \<open>Types (types/auth.types)\<close>

text \<open>
  The interfaces of the authentication types, as records. An optional field
  (\<^verbatim>\<open>refreshToken?: string\<close>) is an \<open>option\<close>.

  A \<^verbatim>\<open>number\<close> of the code is a double. The model follows the numbers that
  are integers, and NaN: \<open>Num i\<close> stands for the double nearest to \<open>i\<close>, which
  is \<open>i\<close> itself up to \<^verbatim>\<open>Number.MAX_SAFE_INTEGER\<close>. Within that range the
  arithmetic of the code is the arithmetic of the integers; what it gives beyond
  it (rounding, infinities, the exponent notation of \<^verbatim>\<open>toString\<close>) is not
  computed by the model but taken from the runtime, as a parameter.
\<close>

datatype number = Num int | NaN

definition MAX_SAFE_INTEGER :: int where
  "MAX_SAFE_INTEGER = 9007199254740991"

definition exact :: "int \<Rightarrow> bool" where
  "exact i = (\<bar>i\<bar> \<le> MAX_SAFE_INTEGER)"

text \<open>
  The arithmetic of the runtime where an operand or the result is not an exact
  integer: sum, product, \<^verbatim>\<open>Math.floor(x / 1000)\<close>, \<^verbatim>\<open>x <= y\<close> and \<^verbatim>\<open>x.toString()\<close>.
\<close>

record runtime =
  inexactAdd :: "int \<Rightarrow> int \<Rightarrow> number"
  inexactMul :: "int \<Rightarrow> int \<Rightarrow> number"
  inexactFloorDiv1000 :: "int \<Rightarrow> number"
  inexactLe :: "int \<Rightarrow> int \<Rightarrow> bool"
  inexactToString :: "int \<Rightarrow> string"

record AuthTokens =
  accessToken :: string
  refreshToken :: "string option"
  idToken :: "string option"
  expiresIn :: number
  tokenType :: string

record User =
  id' :: string
  email :: string
  firstName :: "string option"
  lastName :: "string option"
  profilePictureUrl :: "string option"
  organizationId :: "string option"

record AuthState =
  user :: "User option"
  tokens :: "AuthTokens option"
  isLoading :: bool
  isAuthenticated :: bool
  error :: "string option"

record TokenRefreshResponse =
  access_token :: string
  refresh_token :: "string option"
  id_token :: "string option"
  expires_in :: int
  token_type :: string

record UserInfoResponse =
  sub :: string
  email' :: string
  email_verified :: "bool option"
  given_name :: "string option"
  family_name :: "string option"
  picture :: "string option"
  organization_id :: "string option"

datatype AuthErrorType =
  NETWORK_ERROR | INVALID_CREDENTIALS | TOKEN_EXPIRED | REFRESH_FAILED
  | USER_CANCELLED | UNKNOWN_ERROR

text \<open>
  What the code throws: a plain \<^verbatim>\<open>Error(message)\<close>, or an \<^verbatim>\<open>AuthError\<close> with its
  type, its message and the original error it wraps.
\<close>

datatype exn =
  Error string
  | AuthError AuthErrorType string "exn option"

section \<open>The device: secure store and clock\<close>

text \<open>
  \<^verbatim>\<open>expo-secure-store\<close> is a key/value store of strings whose calls may reject
  (keystore unavailable). The world holds its contents, which keys reject on
  read, write and delete, and the wall clock \<^verbatim>\<open>Date.now()\<close> in milliseconds.
  An operation reads the clock of the world it runs in; time that passes
  between two operations is a step \<open>advance\<close> between them. The world also
  holds the runtime the code runs on.
\<close>

record world =
  secureStore :: "string \<rightharpoonup> string"
  now :: int
  getFails :: "string \<Rightarrow> bool"
  setFails :: "string \<Rightarrow> bool"
  deleteFails :: "string \<Rightarrow> bool"
  runtime :: runtime

definition advance :: "int \<Rightarrow> world \<Rightarrow> world" where
  "advance d w = w\<lparr>now := now w + d\<rparr>"

definition ACCESS_TOKEN :: string where "ACCESS_TOKEN = ''workos_access_token''"
definition REFRESH_TOKEN :: string where "REFRESH_TOKEN = ''workos_refresh_token''"
definition ID_TOKEN :: string where "ID_TOKEN = ''workos_id_token''"
definition EXPIRES_AT :: string where "EXPIRES_AT = ''workos_expires_at''"
definition TOKEN_TYPE :: string where "TOKEN_TYPE = ''workos_token_type''"

definition getItemAsync :: "string \<Rightarrow> world \<Rightarrow> exn + string option" where
  "getItemAsync k w =
     (if getFails w k then Inl (Error ''SecureStore.getItemAsync'')
      else Inr (secureStore w k))"

definition setItemAsync :: "string \<Rightarrow> string \<Rightarrow> world \<Rightarrow> (exn + unit) \<times> world" where
  "setItemAsync k v w =
     (if setFails w k then (Inl (Error ''SecureStore.setItemAsync''), w)
      else (Inr (), w\<lparr>secureStore := (secureStore w)(k \<mapsto> v)\<rparr>))"

definition deleteItemAsync :: "string \<Rightarrow> world \<Rightarrow> (exn + unit) \<times> world" where
  "deleteItemAsync k w =
     (if deleteFails w k then (Inl (Error ''SecureStore.deleteItemAsync''), w)
      else (Inr (), w\<lparr>secureStore := (secureStore w)(k := None)\<rparr>))"

text \<open>
  \<^verbatim>\<open>Promise.all\<close> over calls with effects: every call has been started and runs to
  its end; the result is the first rejection, if there is one.
\<close>

fun promiseAll :: "(world \<Rightarrow> (exn + unit) \<times> world) list \<Rightarrow> world \<Rightarrow> (exn + unit) \<times> world" where
  "promiseAll [] w = (Inr (), w)"
| "promiseAll (t # ts) w =
     (case t w of (r, w1) \<Rightarrow>
        (case promiseAll ts w1 of (rs, w2) \<Rightarrow>
           ((case r of Inl e \<Rightarrow> Inl e | Inr _ \<Rightarrow> rs), w2)))"

definition resolve :: "world \<Rightarrow> (exn + unit) \<times> world" where
  "resolve w = (Inr (), w)"

section \<open>Numbers and strings of the runtime\<close>

text \<open>
  A string is truthy when it is there and not empty; \<^verbatim>\<open>x || undefined\<close> keeps a
  truthy string and drops anything else.
\<close>

definition truthy :: "string option \<Rightarrow> bool" where
  "truthy x = (case x of None \<Rightarrow> False | Some s \<Rightarrow> s \<noteq> [])"

definition orUndefined :: "string option \<Rightarrow> string option" where
  "orUndefined x = (if truthy x then x else None)"

definition digitChars :: string where
  "digitChars = ''0123456789''"

definition isDigit :: "char \<Rightarrow> bool" where
  "isDigit c = (c \<in> set digitChars)"

definition digitVal :: "char \<Rightarrow> nat" where
  "digitVal c = of_char c - 48"

fun digitsOf :: "nat \<Rightarrow> string" where
  "digitsOf n =
     (if n < 10 then [digitChars ! n]
      else digitsOf (n div 10) @ [digitChars ! (n mod 10)])"

text \<open>The decimal numeral of an integer, with a leading minus.\<close>

definition decimal :: "int \<Rightarrow> string" where
  "decimal i = (if i < 0 then CHR ''-'' # digitsOf (nat (- i)) else digitsOf (nat i))"

text \<open>
  \<^verbatim>\<open>Number.prototype.toString()\<close>: the decimal numeral for an exact integer,
  \<^verbatim>\<open>NaN\<close> for NaN; beyond the exact integers, what the runtime prints.
\<close>

definition toString :: "runtime \<Rightarrow> number \<Rightarrow> string" where
  "toString rt x =
     (case x of
        NaN \<Rightarrow> ''NaN''
      | Num i \<Rightarrow> if exact i then decimal i else inexactToString rt i)"

text \<open>
  The operators of the code on numbers. On exact integers with an exact result
  they are the operators of the integers (a double holds every such integer, and
  an operation whose true result is a double returns it); anything with NaN is
  NaN, and a comparison with NaN is false.
\<close>

definition jsAdd :: "runtime \<Rightarrow> number \<Rightarrow> number \<Rightarrow> number" where
  "jsAdd rt a b =
     (case (a, b) of
        (Num x, Num y) \<Rightarrow>
          if exact x \<and> exact y \<and> exact (x + y) then Num (x + y) else inexactAdd rt x y
      | _ \<Rightarrow> NaN)"

definition jsSub :: "runtime \<Rightarrow> number \<Rightarrow> number \<Rightarrow> number" where
  "jsSub rt a b =
     (case (a, b) of
        (Num x, Num y) \<Rightarrow>
          if exact x \<and> exact y \<and> exact (x - y) then Num (x - y) else inexactAdd rt x (- y)
      | _ \<Rightarrow> NaN)"

definition jsMul :: "runtime \<Rightarrow> number \<Rightarrow> number \<Rightarrow> number" where
  "jsMul rt a b =
     (case (a, b) of
        (Num x, Num y) \<Rightarrow>
          if exact x \<and> exact y \<and> exact (x * y) then Num (x * y) else inexactMul rt x y
      | _ \<Rightarrow> NaN)"

text \<open>
  \<^verbatim>\<open>Math.floor(x / 1000)\<close>. For an exact integer \<open>x\<close> the quotient is below
  \<open>2 ^ 44\<close>, where doubles are less than \<open>1 / 500\<close> apart, and is a multiple
  of \<open>1 / 1000\<close>: its rounding does not reach the next integer, and the floor is
  the integer quotient.
\<close>

definition jsFloorDiv1000 :: "runtime \<Rightarrow> number \<Rightarrow> number" where
  "jsFloorDiv1000 rt a =
     (case a of
        Num x \<Rightarrow> if exact x then Num (x div 1000) else inexactFloorDiv1000 rt x
      | NaN \<Rightarrow> NaN)"

text \<open>\<^verbatim>\<open>Math.max(0, x)\<close>.\<close>

definition jsMax0 :: "number \<Rightarrow> number" where
  "jsMax0 a = (case a of Num x \<Rightarrow> Num (max 0 x) | NaN \<Rightarrow> NaN)"

definition jsLe :: "runtime \<Rightarrow> number \<Rightarrow> number \<Rightarrow> bool" where
  "jsLe rt a b =
     (case (a, b) of
        (Num x, Num y) \<Rightarrow> if exact x \<and> exact y then x \<le> y else inexactLe rt x y
      | _ \<Rightarrow> False)"

definition isSpace :: "char \<Rightarrow> bool" where
  "isSpace c = (c \<in> {CHR '' '', CHR 0x09, CHR 0x0A, CHR 0x0B, CHR 0x0C, CHR 0x0D, CHR 0xA0})"

text \<open>
  \<^verbatim>\<open>parseInt(s, 10)\<close>: leading white space is skipped, a sign is read, then the
  longest run of decimal digits; with no digit the result is NaN, otherwise the
  number nearest to the value of the digits.
\<close>

definition parseInt :: "string \<Rightarrow> number" where
  "parseInt s =
     (let s1 = dropWhile isSpace s;
          neg = (case s1 of [] \<Rightarrow> False | c # _ \<Rightarrow> c = CHR ''-'');
          s2 = (case s1 of [] \<Rightarrow> [] | c # r \<Rightarrow> if c = CHR ''-'' \<or> c = CHR ''+'' then r else s1);
          ds = takeWhile isDigit s2;
          v = int (foldl (\<lambda>a c. 10 * a + digitVal c) 0 ds)
      in if ds = [] then NaN else Num (if neg then - v else v))"

section \<open>Token storage (services/auth/tokenStorage)\<close>

definition storeTokens :: "AuthTokens \<Rightarrow> world \<Rightarrow> (exn + unit) \<times> world" where
  "storeTokens t w =
     (let expiresAt =
            jsAdd (runtime w) (Num (now w)) (jsMul (runtime w) (expiresIn t) (Num 1000)) in
      case promiseAll
             [setItemAsync ACCESS_TOKEN (accessToken t),
              setItemAsync EXPIRES_AT (toString (runtime w) expiresAt),
              setItemAsync TOKEN_TYPE (tokenType t),
              (if truthy (refreshToken t)
               then setItemAsync REFRESH_TOKEN (the (refreshToken t)) else resolve),
              (if truthy (idToken t)
               then setItemAsync ID_TOKEN (the (idToken t)) else resolve)] w
      of (Inl e, w') \<Rightarrow> (Inl (Error ''Failed to securely store authentication tokens''), w')
       | (Inr u, w') \<Rightarrow> (Inr (), w'))"

definition getTokens :: "world \<Rightarrow> exn + AuthTokens option" where
  "getTokens w =
     (if getFails w ACCESS_TOKEN \<or> getFails w REFRESH_TOKEN \<or> getFails w ID_TOKEN
         \<or> getFails w EXPIRES_AT \<or> getFails w TOKEN_TYPE
      then Inl (Error ''Failed to retrieve authentication tokens'')
      else
        if \<not> truthy (secureStore w ACCESS_TOKEN) \<or> \<not> truthy (secureStore w EXPIRES_AT)
           \<or> \<not> truthy (secureStore w TOKEN_TYPE)
        then Inr None
        else
          (let expiresAtTimestamp = parseInt (the (secureStore w EXPIRES_AT));
               expiresIn' =
                 jsMax0 (jsFloorDiv1000 (runtime w)
                           (jsSub (runtime w) expiresAtTimestamp (Num (now w))))
           in Inr (Some \<lparr>accessToken = the (secureStore w ACCESS_TOKEN),
                        refreshToken = orUndefined (secureStore w REFRESH_TOKEN),
                        idToken = orUndefined (secureStore w ID_TOKEN),
                        expiresIn = expiresIn',
                        tokenType = the (secureStore w TOKEN_TYPE)\<rparr>)))"

definition isTokenExpired :: "int \<Rightarrow> world \<Rightarrow> bool" where
  "isTokenExpired bufferSeconds w =
     (case getItemAsync EXPIRES_AT w of
        Inl e \<Rightarrow> True
      | Inr expiresAt \<Rightarrow>
          if \<not> truthy expiresAt then True
          else
            (let expiresAtTimestamp = parseInt (the expiresAt);
                 bufferMs = jsMul (runtime w) (Num bufferSeconds) (Num 1000)
             in jsLe (runtime w) (jsSub (runtime w) expiresAtTimestamp (Num (now w))) bufferMs))"

definition clearTokens :: "world \<Rightarrow> (exn + unit) \<times> world" where
  "clearTokens w =
     (case promiseAll
             [deleteItemAsync ACCESS_TOKEN, deleteItemAsync REFRESH_TOKEN,
              deleteItemAsync ID_TOKEN, deleteItemAsync EXPIRES_AT,
              deleteItemAsync TOKEN_TYPE] w
      of (Inl e, w') \<Rightarrow> (Inl (Error ''Failed to clear authentication tokens''), w')
       | (Inr u, w') \<Rightarrow> (Inr (), w'))"


text \<open>The getter of the storage module (the service below has one of the same name).\<close>

definition getValidAccessToken_storage :: "world \<Rightarrow> string option" where
  "getValidAccessToken_storage w =
     (if isTokenExpired 300 w then None
      else (case getItemAsync ACCESS_TOKEN w of Inl e \<Rightarrow> None | Inr v \<Rightarrow> v))"

section \<open>Configuration (config/environment)\<close>

definition tokenRefreshBuffer :: int where
  "tokenRefreshBuffer = 300"

section \<open>The collaborators: crypto, browser, authorization server\<close>

text \<open>
  What \<^verbatim>\<open>promptAsync\<close> resolves with: the type of the result and, on success,
  the \<^verbatim>\<open>code\<close> parameter of the redirect if there is one. The random source and
  the digest always answer; the browser prompt may also throw.
\<close>

datatype AuthSessionResult =
  Cancel | Dismiss | Opened | Locked | ErrorResult | Success "string option"

text \<open>
  What a \<^verbatim>\<open>fetch\<close> of a JSON endpoint comes to: it rejects (or the body of a 2xx
  answer is not JSON), it answers with a status that is not ok (with the
  \<^verbatim>\<open>error_description\<close> of its body, if it has one, and the status, an
  unsigned short), or it answers with the data.
\<close>

datatype 'a response = Rejected | NotOk "string option" "16 word" | Ok 'a

datatype grant = AuthorizationCode string string | RefreshGrant string

record env =
  randomByte :: "nat \<Rightarrow> 8 word"
  digestStringAsync :: "string \<Rightarrow> string"
  promptAsync :: "string \<Rightarrow> exn + AuthSessionResult"
  tokenEndpoint :: "grant \<Rightarrow> TokenRefreshResponse response"
  userInfoEndpoint :: "string \<Rightarrow> UserInfoResponse response"

section \<open>PKCE (services/auth/authService)\<close>

text \<open>\<^verbatim>\<open>Crypto.getRandomBytes(n)\<close>: the next \<open>n\<close> bytes of the random source.\<close>

definition getRandomBytes :: "env \<Rightarrow> nat \<Rightarrow> 8 word list" where
  "getRandomBytes env n = map (randomByte env) [0..<n]"

definition base64Chars :: string where
  "base64Chars = ''ABCDEFGHIJKLMNOPQRSTUVWXYZabcdefghijklmnopqrstuvwxyz0123456789+/''"

definition fromCharCode :: "8 word list \<Rightarrow> string" where
  "fromCharCode bs = map (\<lambda>b. char_of (unat b)) bs"

text \<open>
  \<^verbatim>\<open>btoa\<close> of the runtime: the base64 encoding (RFC 4648, with padding) of a
  string of bytes, three bytes to four characters.
\<close>

fun btoa :: "string \<Rightarrow> string" where
  "btoa [] = []"
| "btoa [a] =
     [base64Chars ! (of_char a div 4),
      base64Chars ! ((of_char a mod 4) * 16),
      CHR ''='', CHR ''='']"
| "btoa [a, b] =
     [base64Chars ! (of_char a div 4),
      base64Chars ! ((of_char a mod 4) * 16 + of_char b div 16),
      base64Chars ! ((of_char b mod 16) * 4),
      CHR ''='']"
| "btoa (a # b # c # rest) =
     [base64Chars ! (of_char a div 4),
      base64Chars ! ((of_char a mod 4) * 16 + of_char b div 16),
      base64Chars ! ((of_char b mod 16) * 4 + of_char c div 64),
      base64Chars ! (of_char c mod 64)] @ btoa rest"

text \<open>\<^verbatim>\<open>s.replace(/p/g, r)\<close> for a pattern of one character.\<close>

definition replaceAll :: "char \<Rightarrow> string \<Rightarrow> string \<Rightarrow> string" where
  "replaceAll p r s = concat (map (\<lambda>c. if c = p then r else [c]) s)"

definition base64url :: "string \<Rightarrow> string" where
  "base64url s = replaceAll CHR ''='' [] (replaceAll CHR ''/'' ''_'' (replaceAll CHR ''+'' ''-'' s))"

definition generateCodeVerifier :: "env \<Rightarrow> string" where
  "generateCodeVerifier env = base64url (btoa (fromCharCode (getRandomBytes env 32)))"

definition generateCodeChallenge :: "env \<Rightarrow> string \<Rightarrow> string" where
  "generateCodeChallenge env verifier = base64url (digestStringAsync env verifier)"

definition base64urlAlphabet :: "char set" where
  "base64urlAlphabet =
     set ''ABCDEFGHIJKLMNOPQRSTUVWXYZabcdefghijklmnopqrstuvwxyz0123456789-_''"

section \<open>Authentication service (services/auth/authService)\<close>

definition exchangeCodeForTokens :: "env \<Rightarrow> string \<Rightarrow> string \<Rightarrow> exn + AuthTokens" where
  "exchangeCodeForTokens env code codeVerifier =
     (case tokenEndpoint env (AuthorizationCode code codeVerifier) of
        Rejected \<Rightarrow>
          Inl (AuthError NETWORK_ERROR ''Failed to exchange authorization code for tokens''
                 (Some (Error ''fetch'')))
      | NotOk desc status \<Rightarrow>
          Inl (AuthError NETWORK_ERROR ''Failed to exchange authorization code for tokens''
                 (Some (Error (if truthy desc then the desc
                               else ''Token exchange failed: '' @ decimal (uint status)))))
      | Ok tokenData \<Rightarrow>
          Inr \<lparr>accessToken = access_token tokenData,
               refreshToken = refresh_token tokenData,
               idToken = id_token tokenData,
               expiresIn = Num (expires_in tokenData),
               tokenType = token_type tokenData\<rparr>)"

definition fetchUserInfo :: "env \<Rightarrow> string \<Rightarrow> exn + User" where
  "fetchUserInfo env accessTok =
     (case userInfoEndpoint env accessTok of
        Rejected \<Rightarrow>
          Inl (AuthError NETWORK_ERROR ''Failed to fetch user information'' (Some (Error ''fetch'')))
      | NotOk desc status \<Rightarrow>
          Inl (AuthError NETWORK_ERROR ''Failed to fetch user information''
                 (Some (Error (''Failed to fetch user info: '' @ decimal (uint status)))))
      | Ok userInfo \<Rightarrow>
          Inr \<lparr>id' = sub userInfo,
               email = email' userInfo,
               firstName = given_name userInfo,
               lastName = family_name userInfo,
               profilePictureUrl = picture userInfo,
               organizationId = organization_id userInfo\<rparr>)"

definition refreshAccessToken :: "env \<Rightarrow> string \<Rightarrow> world \<Rightarrow> (exn + AuthTokens) \<times> world" where
  "refreshAccessToken env refreshTok w =
     (case tokenEndpoint env (RefreshGrant refreshTok) of
        Rejected \<Rightarrow>
          (Inl (AuthError REFRESH_FAILED ''Failed to refresh access token'' (Some (Error ''fetch''))), w)
      | NotOk desc status \<Rightarrow>
          (Inl (AuthError REFRESH_FAILED ''Failed to refresh access token''
                  (Some (Error (if truthy desc then the desc
                                else ''Token refresh failed: '' @ decimal (uint status))))), w)
      | Ok tokenData \<Rightarrow>
          (let newTokens =
                 \<lparr>accessToken = access_token tokenData,
                  refreshToken =
                    (if truthy (refresh_token tokenData) then refresh_token tokenData
                     else Some refreshTok),
                  idToken = id_token tokenData,
                  expiresIn = Num (expires_in tokenData),
                  tokenType = token_type tokenData\<rparr>
           in case storeTokens newTokens w of
                (Inl e, w') \<Rightarrow>
                  (Inl (AuthError REFRESH_FAILED ''Failed to refresh access token'' (Some e)), w')
              | (Inr u, w') \<Rightarrow> (Inr newTokens, w')))"

text \<open>The \<^verbatim>\<open>catch\<close> of \<^verbatim>\<open>loginWithWorkOS\<close>: an AuthError goes on as it is, anything else is wrapped.\<close>

fun rethrowLoginError :: "exn \<Rightarrow> exn" where
  "rethrowLoginError (AuthError ty msg orig) = AuthError ty msg orig"
| "rethrowLoginError (Error msg) =
     AuthError UNKNOWN_ERROR ''An unexpected error occurred during login'' (Some (Error msg))"

definition loginWithWorkOS :: "env \<Rightarrow> world \<Rightarrow> (exn + AuthTokens \<times> User) \<times> world" where
  "loginWithWorkOS env w =
     (let codeVerifier = generateCodeVerifier env;
          codeChallenge = generateCodeChallenge env codeVerifier
      in case promptAsync env codeChallenge of
           Inl e \<Rightarrow> (Inl (rethrowLoginError e), w)
         | Inr authResult \<Rightarrow>
             if authResult = Cancel \<or> authResult = Dismiss
             then (Inl (AuthError USER_CANCELLED ''User cancelled the authentication process'' None), w)
             else
               (case authResult of
                  Success code \<Rightarrow>
                    if \<not> truthy code
                    then (Inl (AuthError INVALID_CREDENTIALS ''No authorization code received'' None), w)
                    else
                      (case exchangeCodeForTokens env (the code) codeVerifier of
                         Inl e \<Rightarrow> (Inl (rethrowLoginError e), w)
                       | Inr newTokens \<Rightarrow>
                           (case storeTokens newTokens w of
                              (Inl e, w') \<Rightarrow> (Inl (rethrowLoginError e), w')
                            | (Inr u, w') \<Rightarrow>
                                (case fetchUserInfo env (accessToken newTokens) of
                                   Inl e \<Rightarrow> (Inl (rethrowLoginError e), w')
                                 | Inr usr \<Rightarrow> (Inr (newTokens, usr), w'))))
                | _ \<Rightarrow> (Inl (AuthError INVALID_CREDENTIALS ''Authentication failed'' None), w)))"

definition logoutService :: "world \<Rightarrow> (exn + unit) \<times> world" where
  "logoutService w =
     (case clearTokens w of
        (Inl e, w') \<Rightarrow> (Inl (AuthError UNKNOWN_ERROR ''Failed to log out'' (Some e)), w')
      | (Inr u, w') \<Rightarrow> (Inr (), w'))"

text \<open>
  The outer \<^verbatim>\<open>catch\<close> of \<^verbatim>\<open>restoreSession\<close> clears the tokens and returns null; when
  the clearing itself throws, the call rejects. The inner \<^verbatim>\<open>catch\<close> (around the
  refresh) does the same inside the outer \<^verbatim>\<open>try\<close>.
\<close>

definition restoreSession_catch :: "world \<Rightarrow> (exn + (AuthTokens \<times> User) option) \<times> world" where
  "restoreSession_catch w =
     (case clearTokens w of (Inl e, w') \<Rightarrow> (Inl e, w') | (Inr u, w') \<Rightarrow> (Inr None, w'))"

definition restoreSession_refresh_catch :: "world \<Rightarrow> (exn + (AuthTokens \<times> User) option) \<times> world" where
  "restoreSession_refresh_catch w =
     (case clearTokens w of (Inl e, w') \<Rightarrow> restoreSession_catch w' | (Inr u, w') \<Rightarrow> (Inr None, w'))"

definition restoreSession :: "env \<Rightarrow> world \<Rightarrow> (exn + (AuthTokens \<times> User) option) \<times> world" where
  "restoreSession env w =
     (case getTokens w of
        Inl e \<Rightarrow> restoreSession_catch w
      | Inr None \<Rightarrow> (Inr None, w)
      | Inr (Some toks) \<Rightarrow>
          (let expired = isTokenExpired tokenRefreshBuffer w in
           if expired \<and> truthy (refreshToken toks) then
             (case refreshAccessToken env (the (refreshToken toks)) w of
                (Inl e, w') \<Rightarrow> restoreSession_refresh_catch w'
              | (Inr newTokens, w') \<Rightarrow>
                  (case fetchUserInfo env (accessToken newTokens) of
                     Inl e \<Rightarrow> restoreSession_refresh_catch w'
                   | Inr usr \<Rightarrow> (Inr (Some (newTokens, usr)), w')))
           else if expired then
             (case clearTokens w of
                (Inl e, w') \<Rightarrow> restoreSession_catch w'
              | (Inr u, w') \<Rightarrow> (Inr None, w'))
           else
             (case fetchUserInfo env (accessToken toks) of
                Inl e \<Rightarrow> restoreSession_catch w
              | Inr usr \<Rightarrow> (Inr (Some (toks, usr)), w))))"

definition getValidAccessToken :: "env \<Rightarrow> world \<Rightarrow> string option \<times> world" where
  "getValidAccessToken env w =
     (case getTokens w of
        Inl e \<Rightarrow> (None, w)
      | Inr None \<Rightarrow> (None, w)
      | Inr (Some toks) \<Rightarrow>
          (let expired = isTokenExpired tokenRefreshBuffer w in
           if expired \<and> truthy (refreshToken toks) then
             (case refreshAccessToken env (the (refreshToken toks)) w of
                (Inl e, w') \<Rightarrow> (None, w')
              | (Inr newTokens, w') \<Rightarrow> (Some (accessToken newTokens), w'))
           else if expired then (None, w)
           else (Some (accessToken toks), w)))"


section \<open>Authentication context (the provider of the session state)\<close>

text \<open>
  The provider holds one \<open>AuthState\<close> and changes it only through
  \<^verbatim>\<open>setAuthState\<close>, called with a new state or with an updater of the previous
  one. No operation reads the state: what an operation does to the session is
  the list of its \<^verbatim>\<open>setAuthState\<close> calls, in order, each a function on the state,
  and \<open>run\<close> applies them.
\<close>

definition initialAuthState :: AuthState where
  "initialAuthState =
     \<lparr>user = None, tokens = None, isLoading = True, isAuthenticated = False, error = None\<rparr>"

definition setAuthSuccess :: "User \<Rightarrow> AuthTokens \<Rightarrow> AuthState \<Rightarrow> AuthState" where
  "setAuthSuccess usr toks prev =
     \<lparr>user = Some usr, tokens = Some toks, isLoading = False, isAuthenticated = True,
      error = None\<rparr>"

definition setAuthLoggedOut :: "AuthState \<Rightarrow> AuthState" where
  "setAuthLoggedOut prev =
     \<lparr>user = None, tokens = None, isLoading = False, isAuthenticated = False, error = None\<rparr>"

definition setAuthError :: "string \<Rightarrow> AuthState \<Rightarrow> AuthState" where
  "setAuthError err prev = prev\<lparr>isLoading := False, error := Some err\<rparr>"

definition clearError :: "AuthState \<Rightarrow> AuthState" where
  "clearError prev = prev\<lparr>error := None\<rparr>"

text \<open>The first call of \<^verbatim>\<open>login\<close> and of \<^verbatim>\<open>logout\<close>: loading, no error.\<close>

definition setLoading :: "AuthState \<Rightarrow> AuthState" where
  "setLoading prev = prev\<lparr>isLoading := True, error := None\<rparr>"

text \<open>The call of \<^verbatim>\<open>refreshToken\<close> on success: new tokens, the user kept.\<close>

definition setNewTokens :: "AuthTokens \<Rightarrow> AuthState \<Rightarrow> AuthState" where
  "setNewTokens newTokens prev = prev\<lparr>tokens := Some newTokens, error := None\<rparr>"

text \<open>The state \<^verbatim>\<open>Idle\<close> of the specification: what \<open>setAuthLoggedOut\<close> sets.\<close>

definition idleState :: AuthState where
  "idleState =
     \<lparr>user = None, tokens = None, isLoading = False, isAuthenticated = False, error = None\<rparr>"

definition run :: "(AuthState \<Rightarrow> AuthState) list \<Rightarrow> AuthState \<Rightarrow> AuthState" where
  "run fs s = foldl (\<lambda>st f. f st) s fs"

fun loginErrorMessage :: "exn \<Rightarrow> string" where
  "loginErrorMessage (AuthError USER_CANCELLED msg orig) = ''Login was cancelled''"
| "loginErrorMessage (AuthError NETWORK_ERROR msg orig) =
     ''Network error. Please check your connection and try again''"
| "loginErrorMessage (AuthError INVALID_CREDENTIALS msg orig) =
     ''Authentication failed. Please try again''"
| "loginErrorMessage (AuthError ty msg orig) = msg"
| "loginErrorMessage (Error msg) = ''An unexpected error occurred during login''"

definition login :: "env \<Rightarrow> world \<Rightarrow> world \<times> (AuthState \<Rightarrow> AuthState) list" where
  "login env w =
     (case loginWithWorkOS env w of
        (Inr (toks, usr), w') \<Rightarrow> (w', [setLoading, setAuthSuccess usr toks])
      | (Inl e, w') \<Rightarrow> (w', [setLoading, setAuthError (loginErrorMessage e)]))"

definition logout :: "world \<Rightarrow> world \<times> (AuthState \<Rightarrow> AuthState) list" where
  "logout w =
     (case logoutService w of
        (Inr u, w') \<Rightarrow> (w', [setLoading, setAuthLoggedOut])
      | (Inl e, w') \<Rightarrow> (w', [setLoading, setAuthLoggedOut]))"

text \<open>The \<^verbatim>\<open>catch\<close> of \<^verbatim>\<open>refreshToken\<close>: log out, then set the error.\<close>

definition refreshToken_catch :: "world \<Rightarrow> world \<times> (AuthState \<Rightarrow> AuthState) list" where
  "refreshToken_catch w =
     (case logout w of
        (w', fs) \<Rightarrow> (w', fs @ [setAuthError ''Your session has expired. Please log in again'']))"

definition refreshToken' :: "env \<Rightarrow> world \<Rightarrow> world \<times> (AuthState \<Rightarrow> AuthState) list" where
  "refreshToken' env w =
     (case getTokens w of
        Inl e \<Rightarrow> refreshToken_catch w
      | Inr None \<Rightarrow> refreshToken_catch w
      | Inr (Some toks) \<Rightarrow>
          if \<not> truthy (refreshToken toks) then refreshToken_catch w
          else
            (case refreshAccessToken env (the (refreshToken toks)) w of
               (Inl e, w') \<Rightarrow> refreshToken_catch w'
             | (Inr newTokens, w') \<Rightarrow> (w', [setNewTokens newTokens])))"

definition attemptSessionRestore :: "env \<Rightarrow> world \<Rightarrow> world \<times> (AuthState \<Rightarrow> AuthState) list" where
  "attemptSessionRestore env w =
     (case restoreSession env w of
        (Inr (Some (toks, usr)), w') \<Rightarrow> (w', [setAuthSuccess usr toks])
      | (Inr None, w') \<Rightarrow> (w', [setAuthLoggedOut])
      | (Inl e, w') \<Rightarrow> (w', [setAuthLoggedOut]))"

text \<open>
  The session states the provider can be in: the initial state, and any state
  after one more \<^verbatim>\<open>setAuthState\<close> call of one of the operations, whatever the
  device and the collaborators do (so operations may overlap).
\<close>

inductive reachable :: "AuthState \<Rightarrow> bool" where
  reach_initial: "reachable initialAuthState"
| reach_restore: "reachable s \<Longrightarrow> f \<in> set (snd (attemptSessionRestore env w)) \<Longrightarrow> reachable (f s)"
| reach_login: "reachable s \<Longrightarrow> f \<in> set (snd (login env w)) \<Longrightarrow> reachable (f s)"
| reach_logout: "reachable s \<Longrightarrow> f \<in> set (snd (logout w)) \<Longrightarrow> reachable (f s)"
| reach_refreshToken: "reachable s \<Longrightarrow> f \<in> set (snd (refreshToken' env w)) \<Longrightarrow> reachable (f s)"
| reach_clearError: "reachable s \<Longrightarrow> reachable (clearError s)"


text \<open>
  The invariant that the operations keep, from which the one of the
  specification follows: authenticated exactly when there is a user, and no
  user without tokens.
\<close>

definition sessionInv :: "AuthState \<Rightarrow> bool" where
  "sessionInv s =
     ((isAuthenticated s \<longleftrightarrow> user s \<noteq> None) \<and> (user s \<noteq> None \<longrightarrow> tokens s \<noteq> None))"

section \<open>Example devices and collaborators\<close>

text \<open>
  Concrete inputs on which the theorems below are instantiated. Their numbers
  stay within the exact integers, so the entries of their runtime are never
  consulted; they are fixed to some values.
\<close>

definition exampleRuntime :: runtime where
  "exampleRuntime =
     \<lparr>inexactAdd = (\<lambda>x y. NaN), inexactMul = (\<lambda>x y. NaN), inexactFloorDiv1000 = (\<lambda>x. NaN),
      inexactLe = (\<lambda>x y. False), inexactToString = (\<lambda>x. ''Infinity'')\<rparr>"

definition emptyDevice :: world where
  "emptyDevice =
     \<lparr>secureStore = Map.empty, now = 1700000000000,
      getFails = (\<lambda>k. False), setFails = (\<lambda>k. False), deleteFails = (\<lambda>k. False),
      runtime = exampleRuntime\<rparr>"

text \<open>A device that still holds the refresh token of an earlier session.\<close>

definition staleDevice :: world where
  "staleDevice = emptyDevice\<lparr>secureStore := [REFRESH_TOKEN \<mapsto> ''r0'']\<rparr>"

text \<open>A device whose keystore rejects every read.\<close>

definition lockedDevice :: world where
  "lockedDevice = emptyDevice\<lparr>getFails := (\<lambda>k. True)\<rparr>"

definition bearerTokens :: AuthTokens where
  "bearerTokens =
     \<lparr>accessToken = ''a1'', refreshToken = None, idToken = None, expiresIn = Num 3600,
      tokenType = ''Bearer''\<rparr>"

text \<open>A token set whose lifetime is not a number.\<close>

definition nanTokens :: AuthTokens where
  "nanTokens =
     \<lparr>accessToken = ''a1'', refreshToken = None, idToken = None, expiresIn = NaN,
      tokenType = ''Bearer''\<rparr>"

definition fullTokens :: AuthTokens where
  "fullTokens =
     \<lparr>accessToken = ''a2'', refreshToken = Some ''r2'', idToken = Some ''i2'',
      expiresIn = Num 3600, tokenType = ''Bearer''\<rparr>"

text \<open>
  An authorization server that accepts everything: the browser comes back with
  a code, the token endpoint issues a one-hour access token without rotating the
  refresh token, the userinfo endpoint knows the user.
\<close>

definition okTokenData :: TokenRefreshResponse where
  "okTokenData =
     \<lparr>access_token = ''a3'', refresh_token = None, id_token = None, expires_in = 3600,
      token_type = ''Bearer''\<rparr>"

definition okUserInfo :: UserInfoResponse where
  "okUserInfo =
     \<lparr>sub = ''u1'', email' = ''u1@example.com'', email_verified = Some True,
      given_name = Some ''Ada'', family_name = None, picture = None, organization_id = None\<rparr>"

definition okEnv :: env where
  "okEnv =
     \<lparr>randomByte = (\<lambda>i. 0xFB),
      digestStringAsync = (\<lambda>v. ''47DEQpj8HBSa+/TImW+5JCeuQeRkm5NMpJWZG3hSuFU=''),
      promptAsync = (\<lambda>challenge. Inr (Success (Some ''code1''))),
      tokenEndpoint = (\<lambda>g. Ok okTokenData),
      userInfoEndpoint = (\<lambda>a. Ok okUserInfo)\<rparr>"

definition okUser :: User where
  "okUser =
     \<lparr>id' = ''u1'', email = ''u1@example.com'', firstName = Some ''Ada'', lastName = None,
      profilePictureUrl = None, organizationId = None\<rparr>"

text \<open>The token endpoint cannot be reached.\<close>

definition offlineEnv :: env where
  "offlineEnv = okEnv\<lparr>tokenEndpoint := (\<lambda>g. Rejected)\<rparr>"

text \<open>The server issues access tokens that live five minutes.\<close>

definition shortLivedEnv :: env where
  "shortLivedEnv = okEnv\<lparr>tokenEndpoint := (\<lambda>g. Ok (okTokenData\<lparr>expires_in := 300\<rparr>))\<rparr>"

text \<open>The user closes the browser.\<close>

definition cancelEnv :: env where
  "cancelEnv = okEnv\<lparr>promptAsync := (\<lambda>challenge. Inr Cancel)\<rparr>"

text \<open>Devices holding a session: expired with a refresh token, expired without, still valid.\<close>

definition expiredDevice :: world where
  "expiredDevice = emptyDevice\<lparr>secureStore :=
     [ACCESS_TOKEN \<mapsto> ''a0'', REFRESH_TOKEN \<mapsto> ''r0'',
      EXPIRES_AT \<mapsto> ''1699999000000'', TOKEN_TYPE \<mapsto> ''Bearer'']\<rparr>"

definition expiredNoRefreshDevice :: world where
  "expiredNoRefreshDevice = emptyDevice\<lparr>secureStore :=
     [ACCESS_TOKEN \<mapsto> ''a0'', EXPIRES_AT \<mapsto> ''1699999000000'',
      TOKEN_TYPE \<mapsto> ''Bearer'']\<rparr>"

definition validDevice :: world where
  "validDevice = emptyDevice\<lparr>secureStore :=
     [ACCESS_TOKEN \<mapsto> ''a1'', EXPIRES_AT \<mapsto> ''1700003600000'',
      TOKEN_TYPE \<mapsto> ''Bearer'']\<rparr>"

text \<open>A device whose keystore rejects every delete.\<close>

definition brokenDevice :: world where
  "brokenDevice = expiredDevice\<lparr>deleteFails := (\<lambda>k. True)\<rparr>"

text \<open>
  A run of the provider: start (nothing stored), log in, then log in again
  while the token endpoint cannot be reached.
\<close>

definition authenticatedState :: AuthState where
  "authenticatedState = setAuthSuccess okUser fullTokens idleState"

definition startedState :: AuthState where
  "startedState = run (snd (attemptSessionRestore okEnv emptyDevice)) initialAuthState"

definition loggedInState :: AuthState where
  "loggedInState = run (snd (login okEnv emptyDevice)) startedState"

definition failedLoginState :: AuthState where
  "failedLoginState = run (snd (login offlineEnv (fst (login okEnv emptyDevice)))) loggedInState"


section \<open>Decimal numerals: what is written is what is read\<close>

lemma digit_cases: "d < 10 \<Longrightarrow> d \<in> {0,1,2,3,4,5,6,7,8,9::nat}"
  by auto

lemma isDigit_digitChars: "d < 10 \<Longrightarrow> isDigit (digitChars ! d)"
  using digit_cases [of d] by (auto simp: isDigit_def digitChars_def)

lemma digitVal_digitChars: "d < 10 \<Longrightarrow> digitVal (digitChars ! d) = d"
  using digit_cases [of d] by (auto simp: digitVal_def digitChars_def)

lemma decimal_numeral:
  "decimal 1699999000000 = ''1699999000000''"
  "decimal 1700003600000 = ''1700003600000''"
  "decimal 1700000300000 = ''1700000300000''"
  by (simp_all add: decimal_def digitChars_def)

declare digitsOf.simps [simp del]

lemma digitsOf_all_digits: "\<forall>c \<in> set (digitsOf n). isDigit c"
proof (induction n rule: digitsOf.induct)
  case (1 n)
  show ?case
  proof (cases "n < 10")
    case True
    then show ?thesis by (subst digitsOf.simps) (simp add: isDigit_digitChars)
  next
    case False
    with 1 show ?thesis by (subst digitsOf.simps) (simp add: isDigit_digitChars)
  qed
qed

lemma digitsOf_value: "foldl (\<lambda>a c. 10 * a + digitVal c) 0 (digitsOf n) = n"
proof (induction n rule: digitsOf.induct)
  case (1 n)
  show ?case
  proof (cases "n < 10")
    case True
    then show ?thesis by (subst digitsOf.simps) (simp add: digitVal_digitChars)
  next
    case False
    with 1 show ?thesis by (subst digitsOf.simps) (simp add: digitVal_digitChars)
  qed
qed

lemma digitsOf_hd: "\<exists>d r. d < 10 \<and> digitsOf n = (digitChars ! d) # r"
proof (induction n rule: digitsOf.induct)
  case (1 n)
  show ?case
  proof (cases "n < 10")
    case True
    then show ?thesis by (subst digitsOf.simps) auto
  next
    case False
    with 1 obtain d r where "d < 10" "digitsOf (n div 10) = (digitChars ! d) # r" by auto
    with False show ?thesis by (subst digitsOf.simps) auto
  qed
qed

lemma isDigit_plain: "isDigit c \<Longrightarrow> \<not> isSpace c \<and> c \<noteq> CHR ''-'' \<and> c \<noteq> CHR ''+''"
  by (auto simp: isDigit_def digitChars_def isSpace_def)

lemma parseInt_digits:
  assumes "s \<noteq> []" and "\<forall>c \<in> set s. isDigit c"
  shows "parseInt s = Num (int (foldl (\<lambda>a c. 10 * a + digitVal c) 0 s))"
proof -
  obtain c r where s: "s = c # r" using assms(1) by (cases s) auto
  have c: "\<not> isSpace c" "c \<noteq> CHR ''-''" "c \<noteq> CHR ''+''"
    using assms(2) isDigit_plain [of c] by (auto simp: s)
  have all: "takeWhile isDigit (c # r) = c # r"
    using assms(2) by (simp add: takeWhile_eq_all_conv s)
  show ?thesis
    unfolding parseInt_def s Let_def using c by (simp add: all del: takeWhile.simps)
qed

lemma parseInt_digitsOf: "parseInt (digitsOf n) = Num (int n)"
proof -
  have ne: "digitsOf n \<noteq> []" using digitsOf_hd [of n] by auto
  show ?thesis
    using parseInt_digits [OF ne digitsOf_all_digits] by (simp add: digitsOf_value)
qed

lemma parseInt_minus_digitsOf: "parseInt (CHR ''-'' # digitsOf n) = Num (- int n)"
proof -
  have all: "takeWhile isDigit (digitsOf n) = digitsOf n"
    using digitsOf_all_digits by (simp add: takeWhile_eq_all_conv)
  have ne: "digitsOf n \<noteq> []" using digitsOf_hd [of n] by auto
  have v: "foldl (\<lambda>a c. 10 * a + digitVal c) 0 (digitsOf n) = n" by (rule digitsOf_value)
  show ?thesis
    unfolding parseInt_def
    using ne by (simp add: Let_def isSpace_def all v)
qed

lemma parseInt_decimal: "parseInt (decimal i) = Num i"
  by (simp add: decimal_def parseInt_digitsOf parseInt_minus_digitsOf)

lemma decimal_not_empty: "decimal i \<noteq> []"
  using digitsOf_hd [of "nat i"] digitsOf_hd [of "nat (- i)"] by (auto simp: decimal_def)

lemma parseInt_NaN: "parseInt ''NaN'' = NaN"
  by (simp add: parseInt_def isSpace_def isDigit_def digitChars_def)

section \<open>Numbers: the exact range\<close>

lemma jsAdd_exact:
  "exact x \<Longrightarrow> exact y \<Longrightarrow> exact (x + y) \<Longrightarrow> jsAdd rt (Num x) (Num y) = Num (x + y)"
  by (simp add: jsAdd_def)

lemma jsSub_exact:
  "exact x \<Longrightarrow> exact y \<Longrightarrow> exact (x - y) \<Longrightarrow> jsSub rt (Num x) (Num y) = Num (x - y)"
  by (simp add: jsSub_def)

lemma jsMul_exact:
  "exact x \<Longrightarrow> exact y \<Longrightarrow> exact (x * y) \<Longrightarrow> jsMul rt (Num x) (Num y) = Num (x * y)"
  by (simp add: jsMul_def)

lemma jsFloorDiv1000_exact: "exact x \<Longrightarrow> jsFloorDiv1000 rt (Num x) = Num (x div 1000)"
  by (simp add: jsFloorDiv1000_def)

lemma jsLe_exact: "exact x \<Longrightarrow> exact y \<Longrightarrow> jsLe rt (Num x) (Num y) = (x \<le> y)"
  by (simp add: jsLe_def)

lemma toString_exact: "exact i \<Longrightarrow> toString rt (Num i) = decimal i"
  by (simp add: toString_def)

lemma js_NaN:
  "jsAdd rt a NaN = NaN" "jsMul rt NaN b = NaN" "jsSub rt NaN b = NaN"
  "jsLe rt NaN b = False" "toString rt NaN = ''NaN''" "jsFloorDiv1000 rt NaN = NaN"
  "jsMax0 NaN = NaN"
  by (simp_all add: jsAdd_def jsMul_def jsSub_def jsLe_def toString_def jsFloorDiv1000_def
      jsMax0_def split: number.splits)

lemma exact_numeral:
  "exact 1000" "exact 300" "exact 3600" "exact 1700000000000" "exact 1699999000000"
  "exact 1700003600000" "exact 1700000300000" "exact 300000" "exact 3600000"
  by (simp_all add: exact_def MAX_SAFE_INTEGER_def)

text \<open>
  A token set that lives \<open>e \<ge> 0\<close> seconds from a clock \<open>n \<ge> 0\<close>, with the expiry
  (and the second after it) within the exact integers: every number on the way
  is exact.
\<close>

lemma exact_lifetime:
  assumes "0 \<le> n" and "0 \<le> e" and "n + e * 1000 + 1000 \<le> MAX_SAFE_INTEGER"
  shows "exact n" "exact e" "exact (e * 1000)" "exact (n + e * 1000)"
  using assms by (simp_all add: exact_def)

section \<open>Token storage: properties\<close>

lemmas storage_keys = ACCESS_TOKEN_def REFRESH_TOKEN_def ID_TOKEN_def EXPIRES_AT_def TOKEN_TYPE_def

lemma truthy_orUndefined: "truthy (orUndefined x) = truthy x"
  by (simp add: orUndefined_def truthy_def)

lemma orUndefined_truthy: "truthy x \<Longrightarrow> orUndefined x = x"
  by (simp add: orUndefined_def)

text \<open>With a keystore that accepts every write, \<open>storeTokens\<close> succeeds and leaves this store.\<close>

lemma storeTokens_store:
  assumes "\<forall>k. \<not> setFails w k"
  shows "storeTokens t w =
     (Inr (), w\<lparr>secureStore :=
        (\<lambda>k. if k = ID_TOKEN \<and> truthy (idToken t) then idToken t
             else if k = REFRESH_TOKEN \<and> truthy (refreshToken t) then refreshToken t
             else if k = TOKEN_TYPE then Some (tokenType t)
             else if k = EXPIRES_AT
               then Some (toString (runtime w)
                            (jsAdd (runtime w) (Num (now w))
                               (jsMul (runtime w) (expiresIn t) (Num 1000))))
             else if k = ACCESS_TOKEN then Some (accessToken t)
             else secureStore w k)\<rparr>)"
  using assms
  by (auto simp: storeTokens_def setItemAsync_def resolve_def Let_def truthy_def fun_eq_iff
      storage_keys split: option.splits intro!: world.equality)

text \<open>The expiry that \<open>storeTokens\<close> writes, within the exact integers.\<close>

lemma expiresAt_exact:
  assumes "0 \<le> n" and "0 \<le> e" and "n + e * 1000 + 1000 \<le> MAX_SAFE_INTEGER"
  shows "toString rt (jsAdd rt (Num n) (jsMul rt (Num e) (Num 1000))) = decimal (n + e * 1000)"
  using exact_lifetime [OF assms]
  by (simp add: jsMul_exact jsAdd_exact toString_exact exact_numeral)

lemma isTokenExpired_stored:
  assumes "\<not> getFails w EXPIRES_AT" and "secureStore w EXPIRES_AT = Some (decimal e)"
    and "exact e" and "exact (now w)" and "exact (e - now w)"
    and "exact b" and "exact (b * 1000)"
  shows "isTokenExpired b w = (e - now w \<le> b * 1000)"
  using assms
  by (simp add: isTokenExpired_def getItemAsync_def truthy_def decimal_not_empty parseInt_decimal
      Let_def jsMul_exact jsSub_exact jsLe_exact exact_numeral)

lemma getTokens_stored:
  assumes "\<not> getFails w ACCESS_TOKEN" and "\<not> getFails w REFRESH_TOKEN"
    and "\<not> getFails w ID_TOKEN" and "\<not> getFails w EXPIRES_AT" and "\<not> getFails w TOKEN_TYPE"
    and "secureStore w ACCESS_TOKEN = Some a" and "a \<noteq> []"
    and "secureStore w EXPIRES_AT = Some (decimal e)"
    and "secureStore w TOKEN_TYPE = Some ty" and "ty \<noteq> []"
    and "exact e" and "exact (now w)" and "exact (e - now w)"
  shows "getTokens w = Inr (Some \<lparr>accessToken = a,
            refreshToken = orUndefined (secureStore w REFRESH_TOKEN),
            idToken = orUndefined (secureStore w ID_TOKEN),
            expiresIn = Num (max 0 ((e - now w) div 1000)), tokenType = ty\<rparr>)"
  using assms
  by (simp add: getTokens_def truthy_def parseInt_decimal decimal_not_empty Let_def
      jsSub_exact jsFloorDiv1000_exact jsMax0_def)

text \<open>
  C9 (the code at the failing input). \<open>storeTokens\<close> of a token set whose
  lifetime is NaN writes the expiry \<open>NaN\<close>; with that stored expiry
  \<open>isTokenExpired 300\<close> is false, now and a hundred years later: an expiry
  that cannot be read as a number is treated as valid.
\<close>

theorem isTokenExpired_NaN_expiry:
  "secureStore (snd (storeTokens nanTokens emptyDevice)) EXPIRES_AT = Some ''NaN''
   \<and> \<not> isTokenExpired 300 (snd (storeTokens nanTokens emptyDevice))
   \<and> \<not> isTokenExpired 300 (advance 3153600000000 (snd (storeTokens nanTokens emptyDevice)))"
proof -
  have st: "storeTokens nanTokens emptyDevice =
      (Inr (), emptyDevice\<lparr>secureStore :=
         [ACCESS_TOKEN \<mapsto> ''a1'', EXPIRES_AT \<mapsto> ''NaN'', TOKEN_TYPE \<mapsto> ''Bearer'']\<rparr>)"
    by (subst storeTokens_store)
       (auto simp: emptyDevice_def nanTokens_def truthy_def js_NaN fun_eq_iff
          storage_keys intro!: world.equality)
  show ?thesis
    unfolding st
    by (simp add: isTokenExpired_def getItemAsync_def emptyDevice_def advance_def truthy_def
        storage_keys parseInt_NaN Let_def js_NaN)
qed

text \<open>
  C3 (as the claim states it, refuted). A token set without refresh token,
  stored on a device that still holds an old refresh token, is read back with
  the old refresh token: the optional fields do not come back unchanged for
  every prior storage.
\<close>

theorem storeTokens_getTokens_stale_refreshToken:
  "refreshToken bearerTokens = None
   \<and> getTokens (snd (storeTokens bearerTokens staleDevice))
       = Inr (Some (bearerTokens\<lparr>refreshToken := Some ''r0''\<rparr>))"
proof -
  have st: "storeTokens bearerTokens staleDevice =
      (Inr (), staleDevice\<lparr>secureStore :=
         [REFRESH_TOKEN \<mapsto> ''r0'', ACCESS_TOKEN \<mapsto> ''a1'',
          EXPIRES_AT \<mapsto> decimal 1700003600000, TOKEN_TYPE \<mapsto> ''Bearer'']\<rparr>)"
    by (subst storeTokens_store)
       (auto simp: staleDevice_def emptyDevice_def bearerTokens_def truthy_def fun_eq_iff
          jsMul_exact jsAdd_exact toString_exact exact_numeral
          storage_keys intro!: world.equality)
  have gt: "getTokens (staleDevice\<lparr>secureStore :=
         [REFRESH_TOKEN \<mapsto> ''r0'', ACCESS_TOKEN \<mapsto> ''a1'',
          EXPIRES_AT \<mapsto> decimal 1700003600000, TOKEN_TYPE \<mapsto> ''Bearer'']\<rparr>)
      = Inr (Some \<lparr>accessToken = ''a1'', refreshToken = Some ''r0'', idToken = None,
                   expiresIn = Num 3600, tokenType = ''Bearer''\<rparr>)"
    by (subst getTokens_stored [of _ "''a1''" 1700003600000 "''Bearer''"])
       (simp_all add: staleDevice_def emptyDevice_def storage_keys orUndefined_def truthy_def
          exact_numeral)
  show ?thesis
    unfolding st by (simp add: gt) (simp add: bearerTokens_def)
qed

text \<open>
  C3 (amended). On a keystore that accepts the writes and the reads, for a token
  set \<open>t\<close> with a non-empty access token and token type and a lifetime
  \<open>e \<ge> 0\<close>, with the clock not negative and the expiry \<open>now + e * 1000\<close> at
  least a second below \<^verbatim>\<open>Number.MAX_SAFE_INTEGER\<close>: \<open>getTokens\<close> less than a
  second after \<open>storeTokens t\<close> returns the access token and the token type of
  \<open>t\<close>, a lifetime within one second of \<open>e\<close>, and for each of the refresh token
  and the id token: the one of \<open>t\<close> when \<open>t\<close> has a non-empty one, and otherwise
  what the store held before.
\<close>

theorem storeTokens_getTokens_roundtrip:
  assumes "\<forall>k. \<not> setFails w k" and "\<forall>k. \<not> getFails w k"
    and "accessToken t \<noteq> []" and "tokenType t \<noteq> []"
    and "expiresIn t = Num e" and "0 \<le> e" and "0 \<le> d" and "d < 1000"
    and "0 \<le> now w" and "now w + e * 1000 + 1000 \<le> MAX_SAFE_INTEGER"
  shows "\<exists>r e'. getTokens (advance d (snd (storeTokens t w))) = Inr (Some r)
      \<and> accessToken r = accessToken t \<and> tokenType r = tokenType t
      \<and> expiresIn r = Num e' \<and> \<bar>e' - e\<bar> \<le> 1
      \<and> refreshToken r = (if truthy (refreshToken t) then refreshToken t
                           else orUndefined (secureStore w REFRESH_TOKEN))
      \<and> idToken r = (if truthy (idToken t) then idToken t
                      else orUndefined (secureStore w ID_TOKEN))"
proof -
  note ex = exact_lifetime [OF assms(9) assms(6) assms(10)]
  have written: "toString (runtime w)
        (jsAdd (runtime w) (Num (now w)) (jsMul (runtime w) (expiresIn t) (Num 1000)))
      = decimal (now w + e * 1000)"
    unfolding assms(5) by (rule expiresAt_exact [OF assms(9) assms(6) assms(10)])
  have later: "exact (now w + d)"
    using assms(6-10) by (simp add: exact_def)
  have left: "exact (now w + e * 1000 - (now w + d))"
    using assms(6-10) by (simp add: exact_def)
  have ar: "\<bar>max 0 ((e * 1000 - d) div 1000) - e\<bar> \<le> 1"
    using assms(6-8) by (simp add: max_def) linarith
  have eq: "now w + e * 1000 - (now w + d) = e * 1000 - d" by simp
  have ne: "decimal (now w + e * 1000) \<noteq> []" by (rule decimal_not_empty)
  show ?thesis
    using assms(2-4) ar ne later left
    by (simp add: storeTokens_store [OF assms(1)] written getTokens_def advance_def storage_keys
        parseInt_decimal truthy_def orUndefined_def Let_def
        jsSub_exact jsFloorDiv1000_exact jsMax0_def ex eq)
qed

theorem storeTokens_getTokens_roundtrip_witness:
  "\<exists>r e'. getTokens (advance 250 (snd (storeTokens fullTokens staleDevice))) = Inr (Some r)
      \<and> accessToken r = ''a2'' \<and> tokenType r = ''Bearer''
      \<and> expiresIn r = Num e' \<and> \<bar>e' - 3600\<bar> \<le> 1
      \<and> refreshToken r = Some ''r2'' \<and> idToken r = Some ''i2''"
  using storeTokens_getTokens_roundtrip [of staleDevice fullTokens 3600 250]
  by (simp add: staleDevice_def emptyDevice_def fullTokens_def truthy_def MAX_SAFE_INTEGER_def)

section \<open>PKCE: the code verifier\<close>

lemma of_char_lt_256: "(of_char c :: nat) < 256"
proof -
  have "(of_char c :: nat) mod 256 = of_char c" by simp
  then show ?thesis by (metis mod_less_divisor zero_less_numeral)
qed

lemma length_base64Chars: "length base64Chars = 64"
  by (simp add: base64Chars_def)

lemma base64Chars_nth: "n < 64 \<Longrightarrow> base64Chars ! n \<in> set base64Chars"
  by (simp add: length_base64Chars)

lemma base64Chars_no_pad: "CHR ''='' \<notin> set base64Chars"
  by (simp add: base64Chars_def)

lemma base64Chars_nth_no_pad: "n < 64 \<Longrightarrow> base64Chars ! n \<noteq> CHR ''=''"
  using base64Chars_nth [of n] base64Chars_no_pad by metis

lemma sextet_bounds:
  fixes x y :: nat
  assumes "x < 256" and "y < 256"
  shows "x div 4 < 64" and "(x mod 4) * 16 < 64" and "(x mod 4) * 16 + y div 16 < 64"
    and "(x mod 16) * 4 < 64" and "(x mod 16) * 4 + y div 64 < 64" and "x mod 64 < 64"
  using assms by arith+

lemmas sextets =
  sextet_bounds [OF of_char_lt_256 of_char_lt_256]

lemma set_btoa: "set (btoa s) \<subseteq> set base64Chars \<union> {CHR ''=''}"
  by (induction s rule: btoa.induct) (simp_all add: base64Chars_nth sextets)

lemma length_btoa: "length (btoa s) = 4 * ((length s + 2) div 3)"
proof (induction s rule: btoa.induct)
  case (4 a b c rest)
  have "(length (a # b # c # rest) + 2) div 3 = Suc ((length rest + 2) div 3)"
    by simp
  with 4 show ?case by simp
qed simp_all

lemma length_btoa_unpadded:
  "length (filter (\<lambda>c. c \<noteq> CHR ''='') (btoa s)) = (4 * length s + 2) div 3"
proof (induction s rule: btoa.induct)
  case (4 a b c rest)
  have "(4 * length (a # b # c # rest) + 2) div 3 = 4 + (4 * length rest + 2) div 3"
    by simp
  with 4 show ?case by (simp add: base64Chars_nth_no_pad sextets)
qed (simp_all add: base64Chars_nth_no_pad sextets)

lemma replaceAll_char: "replaceAll p [r] s = map (\<lambda>c. if c = p then r else c) s"
  by (induction s) (simp_all add: replaceAll_def)

lemma replaceAll_empty: "replaceAll p [] s = filter (\<lambda>c. c \<noteq> p) s"
  by (induction s) (simp_all add: replaceAll_def)

lemma length_base64url: "length (base64url s) = length (filter (\<lambda>c. c \<noteq> CHR ''='') s)"
  by (induction s) (simp_all add: base64url_def replaceAll_char replaceAll_empty)

lemma base64url_char:
  "x \<in> set base64Chars \<Longrightarrow>
   (if x = CHR ''/'' then CHR ''_'' else if x = CHR ''+'' then CHR ''-'' else x) \<in> base64urlAlphabet"
  by (auto simp: base64Chars_def base64urlAlphabet_def)

lemma base64url_map:
  "base64url s =
     filter (\<lambda>c. c \<noteq> CHR ''='')
       (map (\<lambda>x. if x = CHR ''/'' then CHR ''_'' else if x = CHR ''+'' then CHR ''-'' else x) s)"
  by (induction s) (simp_all add: base64url_def replaceAll_char replaceAll_empty)

lemma set_base64url:
  assumes "set s \<subseteq> set base64Chars \<union> {CHR ''=''}"
  shows "set (base64url s) \<subseteq> base64urlAlphabet"
proof
  fix c assume mem: "c \<in> set (base64url s)"
  define g :: "char \<Rightarrow> char"
    where "g = (\<lambda>x. if x = CHR ''/'' then CHR ''_'' else if x = CHR ''+'' then CHR ''-'' else x)"
  have "base64url s = filter (\<lambda>c. c \<noteq> CHR ''='') (map g s)"
    unfolding g_def by (rule base64url_map)
  with mem have "c \<in> g ` set s" and ne: "c \<noteq> CHR ''=''" by simp_all
  then obtain x where x: "x \<in> set s" and c: "c = g x" by blast
  from c ne have "x \<noteq> CHR ''=''" by (auto simp: g_def)
  with x assms have "x \<in> set base64Chars" by auto
  then have "g x \<in> base64urlAlphabet" unfolding g_def by (rule base64url_char)
  then show "c \<in> base64urlAlphabet" by (simp add: c)
qed

text \<open>
  C10. Every code verifier is 43 characters of the base64url alphabet: the 32
  random bytes encode to 44 base64 characters with exactly one \<open>=\<close>, which is
  stripped.
\<close>

theorem generateCodeVerifier_length_alphabet:
  "length (generateCodeVerifier env) = 43
   \<and> set (generateCodeVerifier env) \<subseteq> base64urlAlphabet
   \<and> length (btoa (fromCharCode (getRandomBytes env 32))) = 44
   \<and> length (filter (\<lambda>c. c = CHR ''='') (btoa (fromCharCode (getRandomBytes env 32)))) = 1"
proof -
  let ?s = "fromCharCode (getRandomBytes env 32)"
  have len: "length ?s = 32" by (simp add: fromCharCode_def getRandomBytes_def)
  have l44: "length (btoa ?s) = 44" by (simp add: length_btoa len)
  have l43: "length (filter (\<lambda>c. c \<noteq> CHR ''='') (btoa ?s)) = 43"
    by (simp add: length_btoa_unpadded len)
  have "length (filter (\<lambda>c. c = CHR ''='') (btoa ?s))
      + length (filter (\<lambda>c. \<not> c = CHR ''='') (btoa ?s)) = length (btoa ?s)"
    by (rule sum_length_filter_compl)
  with l44 l43 have pad: "length (filter (\<lambda>c. c = CHR ''='') (btoa ?s)) = 1" by simp
  have chars: "set (base64url (btoa ?s)) \<subseteq> base64urlAlphabet"
    by (rule set_base64url [OF set_btoa])
  show ?thesis
    using l44 pad chars
    by (simp add: generateCodeVerifier_def length_base64url l43)
qed

theorem generateCodeVerifier_length_alphabet_witness:
  "length (generateCodeVerifier okEnv) = 43
   \<and> set (generateCodeVerifier okEnv) \<subseteq> base64urlAlphabet"
  using generateCodeVerifier_length_alphabet [of okEnv] by simp


section \<open>Authentication service: properties\<close>

subsection \<open>What the storage calls leave behind\<close>

lemma snd_promiseAll_Cons: "snd (promiseAll (t # ts) w) = snd (promiseAll ts (snd (t w)))"
  by (simp add: split_beta)

lemma promiseAll_deleteFails:
  assumes "\<forall>t \<in> set ts. \<forall>w. deleteFails (snd (t w)) = deleteFails w"
  shows "deleteFails (snd (promiseAll ts w)) = deleteFails w"
  using assms
proof (induction ts arbitrary: w)
  case Nil
  then show ?case by simp
next
  case (Cons t ts)
  have a: "deleteFails (snd (t w)) = deleteFails w" using Cons.prems by simp
  have b: "deleteFails (snd (promiseAll ts (snd (t w)))) = deleteFails (snd (t w))"
    using Cons.IH Cons.prems by simp
  show ?case using a b by (simp only: snd_promiseAll_Cons)
qed

lemma setItemAsync_deleteFails: "deleteFails (snd (setItemAsync k v w)) = deleteFails w"
  by (simp add: setItemAsync_def)

lemma snd_storeTokens:
  "snd (storeTokens t w) =
     snd (promiseAll
             [setItemAsync ACCESS_TOKEN (accessToken t),
              setItemAsync EXPIRES_AT
                (toString (runtime w)
                   (jsAdd (runtime w) (Num (now w)) (jsMul (runtime w) (expiresIn t) (Num 1000)))),
              setItemAsync TOKEN_TYPE (tokenType t),
              (if truthy (refreshToken t)
               then setItemAsync REFRESH_TOKEN (the (refreshToken t)) else resolve),
              (if truthy (idToken t)
               then setItemAsync ID_TOKEN (the (idToken t)) else resolve)] w)"
  unfolding storeTokens_def Let_def by (simp only: split_beta split: sum.splits) simp

lemma storeTokens_deleteFails: "deleteFails (snd (storeTokens t w)) = deleteFails w"
  unfolding snd_storeTokens
  by (rule promiseAll_deleteFails) (simp add: setItemAsync_deleteFails resolve_def)

lemma refreshAccessToken_deleteFails:
  "deleteFails (snd (refreshAccessToken env rt w)) = deleteFails w"
proof (cases "tokenEndpoint env (RefreshGrant rt)")
  case (Ok d)
  then show ?thesis
    using storeTokens_deleteFails
    by (simp add: refreshAccessToken_def Let_def split_beta split: sum.splits)
qed (simp_all add: refreshAccessToken_def)

lemma clearTokens_clears:
  assumes "\<forall>k. \<not> deleteFails w k"
  shows "clearTokens w =
     (Inr (), w\<lparr>secureStore := (secureStore w)(ACCESS_TOKEN := None, REFRESH_TOKEN := None,
        ID_TOKEN := None, EXPIRES_AT := None, TOKEN_TYPE := None)\<rparr>)"
  using assms by (simp add: clearTokens_def deleteItemAsync_def)

text \<open>When \<open>storeTokens\<close> returns without error, the token set is in the store.\<close>

lemma storeTokens_persisted:
  assumes "storeTokens t w = (Inr (), w')"
  shows "secureStore w' ACCESS_TOKEN = Some (accessToken t)
     \<and> secureStore w' TOKEN_TYPE = Some (tokenType t)
     \<and> (truthy (refreshToken t) \<longrightarrow> secureStore w' REFRESH_TOKEN = refreshToken t)
     \<and> (truthy (idToken t) \<longrightarrow> secureStore w' ID_TOKEN = idToken t)"
  using assms
  by (auto simp: storeTokens_def Let_def setItemAsync_def resolve_def storage_keys truthy_def
      split: if_splits option.splits)

lemma refreshAccessToken_Ok:
  assumes "tokenEndpoint env (RefreshGrant r) = Ok d" and "\<forall>k. \<not> setFails w k"
  shows "\<exists>t w'. refreshAccessToken env r w = (Inr t, w') \<and> accessToken t = access_token d"
  using assms by (simp add: refreshAccessToken_def Let_def storeTokens_store)

text \<open>The example devices, read.\<close>

lemma emptyDevice_accepts:
  "\<forall>k. \<not> setFails emptyDevice k" "\<forall>k. \<not> getFails emptyDevice k"
  "\<forall>k. \<not> deleteFails emptyDevice k"
  by (simp_all add: emptyDevice_def)

lemma expiredDevice_accepts:
  "\<forall>k. \<not> setFails expiredDevice k" "\<forall>k. \<not> getFails expiredDevice k"
  "\<forall>k. \<not> deleteFails expiredDevice k"
  by (simp_all add: expiredDevice_def emptyDevice_def)

lemma getTokens_expiredDevice:
  "getTokens expiredDevice =
      Inr (Some \<lparr>accessToken = ''a0'', refreshToken = Some ''r0'', idToken = None,
                 expiresIn = Num 0, tokenType = ''Bearer''\<rparr>)"
  by (subst getTokens_stored [of _ "''a0''" 1699999000000 "''Bearer''"])
     (simp_all add: expiredDevice_def emptyDevice_def storage_keys orUndefined_def truthy_def
        decimal_numeral exact_def MAX_SAFE_INTEGER_def)

lemma isTokenExpired_expiredDevice: "isTokenExpired tokenRefreshBuffer expiredDevice"
  by (subst isTokenExpired_stored [of _ 1699999000000])
     (simp_all add: expiredDevice_def emptyDevice_def storage_keys tokenRefreshBuffer_def
        decimal_numeral exact_def MAX_SAFE_INTEGER_def)

lemma refreshAccessToken_expiredDevice:
  assumes "tokenEndpoint env (RefreshGrant ''r0'') = Ok (okTokenData\<lparr>expires_in := n\<rparr>)"
    and "0 \<le> n" and "n \<le> 3600"
  shows "refreshAccessToken env ''r0'' expiredDevice =
      (Inr \<lparr>accessToken = ''a3'', refreshToken = Some ''r0'', idToken = None,
            expiresIn = Num n, tokenType = ''Bearer''\<rparr>,
       expiredDevice\<lparr>secureStore :=
         [ACCESS_TOKEN \<mapsto> ''a3'', REFRESH_TOKEN \<mapsto> ''r0'',
          EXPIRES_AT \<mapsto> decimal (1700000000000 + n * 1000), TOKEN_TYPE \<mapsto> ''Bearer'']\<rparr>)"
proof -
  have nw: "now expiredDevice = 1700000000000"
    by (simp add: expiredDevice_def emptyDevice_def)
  have written: "toString rt (jsAdd rt (Num 1700000000000) (jsMul rt (Num n) (Num 1000)))
      = decimal (1700000000000 + n * 1000)" for rt
    by (rule expiresAt_exact) (use assms(2,3) in \<open>simp_all add: MAX_SAFE_INTEGER_def\<close>)
  show ?thesis
    using assms(1)
    by (simp add: refreshAccessToken_def okTokenData_def Let_def
          truthy_def storeTokens_store [OF expiredDevice_accepts(1)] nw written)
       (auto simp: expiredDevice_def emptyDevice_def storage_keys fun_eq_iff written
          intro!: world.equality)
qed

subsection \<open>refreshAccessToken\<close>

text \<open>
  C5. When \<open>refreshAccessToken\<close> succeeds, the server has answered with token
  data; when that answer has no refresh token (none, or an empty one), the
  returned token set carries the refresh token of the caller; and the returned
  token set is the one \<open>storeTokens\<close> has written, without error, into the
  store the call leaves behind.
\<close>

theorem refreshAccessToken_success:
  assumes "refreshAccessToken env rt w = (Inr t, w')"
  shows "\<exists>d. tokenEndpoint env (RefreshGrant rt) = Ok d
      \<and> accessToken t = access_token d
      \<and> (\<not> truthy (refresh_token d) \<longrightarrow> refreshToken t = Some rt)
      \<and> (truthy (refresh_token d) \<longrightarrow> refreshToken t = refresh_token d)
      \<and> storeTokens t w = (Inr (), w')
      \<and> secureStore w' ACCESS_TOKEN = Some (accessToken t)
      \<and> secureStore w' TOKEN_TYPE = Some (tokenType t)
      \<and> (rt \<noteq> [] \<longrightarrow> secureStore w' REFRESH_TOKEN = refreshToken t)"
proof (cases "tokenEndpoint env (RefreshGrant rt)")
  case (Ok d)
  define nt where "nt = \<lparr>accessToken = access_token d,
                  refreshToken =
                    (if truthy (refresh_token d) then refresh_token d
                     else Some rt),
                  idToken = id_token d,
                  expiresIn = Num (expires_in d),
                  tokenType = token_type d\<rparr>"
  have r: "refreshAccessToken env rt w =
     (case storeTokens nt w of
                (Inl e, w') \<Rightarrow>
                  (Inl (AuthError REFRESH_FAILED ''Failed to refresh access token'' (Some e)), w')
              | (Inr u, w') \<Rightarrow> (Inr nt, w'))"
    unfolding refreshAccessToken_def Ok nt_def Let_def by simp
  from assms have t: "t = nt" and st: "storeTokens nt w = (Inr (), w')"
    unfolding r by (auto split: prod.splits sum.splits)
  have tr: "rt \<noteq> [] \<longrightarrow> truthy (refreshToken nt)"
    by (simp add: nt_def truthy_def)
  show ?thesis
    using storeTokens_persisted [OF st] st tr Ok
    by (auto simp: t) (simp_all add: nt_def)
qed (use assms in \<open>simp_all add: refreshAccessToken_def\<close>)

theorem refreshAccessToken_success_witness:
  "\<exists>t w'. refreshAccessToken okEnv ''r0'' expiredDevice = (Inr t, w')
     \<and> refresh_token okTokenData = None
     \<and> refreshToken t = Some ''r0''
     \<and> storeTokens t expiredDevice = (Inr (), w')
     \<and> secureStore w' ACCESS_TOKEN = Some ''a3''
     \<and> secureStore w' REFRESH_TOKEN = Some ''r0''"
proof -
  have ep: "tokenEndpoint okEnv (RefreshGrant ''r0'') = Ok (okTokenData\<lparr>expires_in := 3600\<rparr>)"
    by (simp add: okEnv_def okTokenData_def)
  have rf: "refreshAccessToken okEnv ''r0'' expiredDevice =
      (Inr \<lparr>accessToken = ''a3'', refreshToken = Some ''r0'', idToken = None,
            expiresIn = Num 3600, tokenType = ''Bearer''\<rparr>,
       expiredDevice\<lparr>secureStore :=
         [ACCESS_TOKEN \<mapsto> ''a3'', REFRESH_TOKEN \<mapsto> ''r0'',
          EXPIRES_AT \<mapsto> decimal (1700000000000 + 3600 * 1000), TOKEN_TYPE \<mapsto> ''Bearer'']\<rparr>)"
    by (rule refreshAccessToken_expiredDevice [OF ep]) simp_all
  show ?thesis
    using refreshAccessToken_success [OF rf] ep
    by (simp add: rf okTokenData_def truthy_def)
qed

subsection \<open>getValidAccessToken\<close>

text \<open>
  C4 (as the claim states it, refuted). The stored token has expired and a
  refresh token is stored; the server answers the refresh with an access token
  that lives five minutes. The caller receives that token, which by the
  freshly written expiry is within the buffer of its expiry.
\<close>

theorem getValidAccessToken_short_lived:
  "fst (getValidAccessToken shortLivedEnv expiredDevice) = Some ''a3''
   \<and> secureStore (snd (getValidAccessToken shortLivedEnv expiredDevice)) ACCESS_TOKEN = Some ''a3''
   \<and> isTokenExpired tokenRefreshBuffer (snd (getValidAccessToken shortLivedEnv expiredDevice))"
proof -
  have ep: "tokenEndpoint shortLivedEnv (RefreshGrant ''r0'') = Ok (okTokenData\<lparr>expires_in := 300\<rparr>)"
    by (simp add: shortLivedEnv_def okEnv_def)
  have rf: "refreshAccessToken shortLivedEnv ''r0'' expiredDevice =
      (Inr \<lparr>accessToken = ''a3'', refreshToken = Some ''r0'', idToken = None,
            expiresIn = Num 300, tokenType = ''Bearer''\<rparr>,
       expiredDevice\<lparr>secureStore :=
         [ACCESS_TOKEN \<mapsto> ''a3'', REFRESH_TOKEN \<mapsto> ''r0'',
          EXPIRES_AT \<mapsto> decimal (1700000000000 + 300 * 1000), TOKEN_TYPE \<mapsto> ''Bearer'']\<rparr>)"
    by (rule refreshAccessToken_expiredDevice [OF ep]) simp_all
  have g: "getValidAccessToken shortLivedEnv expiredDevice =
      (Some ''a3'', expiredDevice\<lparr>secureStore :=
         [ACCESS_TOKEN \<mapsto> ''a3'', REFRESH_TOKEN \<mapsto> ''r0'',
          EXPIRES_AT \<mapsto> decimal (1700000000000 + 300 * 1000), TOKEN_TYPE \<mapsto> ''Bearer'']\<rparr>)"
    by (simp add: getValidAccessToken_def getTokens_expiredDevice isTokenExpired_expiredDevice
        Let_def truthy_def rf)
  have ex: "isTokenExpired tokenRefreshBuffer (expiredDevice\<lparr>secureStore :=
         [ACCESS_TOKEN \<mapsto> ''a3'', REFRESH_TOKEN \<mapsto> ''r0'',
          EXPIRES_AT \<mapsto> decimal (1700000000000 + 300 * 1000), TOKEN_TYPE \<mapsto> ''Bearer'']\<rparr>)"
    by (subst isTokenExpired_stored [of _ "1700000000000 + 300 * 1000"])
       (simp_all add: expiredDevice_def emptyDevice_def storage_keys tokenRefreshBuffer_def
          exact_def MAX_SAFE_INTEGER_def)
  show ?thesis
    unfolding g using ex by (simp add: storage_keys)
qed

text \<open>
  C4 (amended). Whatever the device and the server do, a token that
  \<open>getValidAccessToken\<close> returns is either the stored access token, with
  \<open>isTokenExpired\<close> false for the configured buffer, or, with \<open>isTokenExpired\<close>
  true, the access token of a successful refresh with the stored refresh
  token. And on a keystore that accepts the reads of the five entries, with an
  access token, an expiry \<open>e\<close> and a token type in the store (the numbers
  exact): it returns the stored access token when \<open>e\<close> is more than the buffer
  away; otherwise, when a refresh token is stored, the access token of the
  refresh when that succeeds (whatever its lifetime) and null when it fails;
  otherwise null.
\<close>

theorem getValidAccessToken_cases:
  "(\<forall>a. fst (getValidAccessToken env w) = Some a \<longrightarrow>
      (\<not> isTokenExpired tokenRefreshBuffer w \<and> secureStore w ACCESS_TOKEN = Some a
         \<and> snd (getValidAccessToken env w) = w)
      \<or> (isTokenExpired tokenRefreshBuffer w
         \<and> (\<exists>r nt w'. secureStore w REFRESH_TOKEN = Some r
               \<and> refreshAccessToken env r w = (Inr nt, w') \<and> a = accessToken nt
               \<and> snd (getValidAccessToken env w) = w')))
   \<and> (\<not> getFails w ACCESS_TOKEN \<and> \<not> getFails w REFRESH_TOKEN \<and> \<not> getFails w ID_TOKEN
        \<and> \<not> getFails w EXPIRES_AT \<and> \<not> getFails w TOKEN_TYPE
        \<and> secureStore w ACCESS_TOKEN = Some a0 \<and> a0 \<noteq> []
        \<and> secureStore w EXPIRES_AT = Some (decimal e)
        \<and> secureStore w TOKEN_TYPE = Some ty \<and> ty \<noteq> []
        \<and> exact e \<and> exact (now w) \<and> exact (e - now w)
      \<longrightarrow> getValidAccessToken env w =
           (if tokenRefreshBuffer * 1000 < e - now w then (Some a0, w)
            else if truthy (secureStore w REFRESH_TOKEN) then
              (case refreshAccessToken env (the (secureStore w REFRESH_TOKEN)) w of
                 (Inl err, w') \<Rightarrow> (None, w')
               | (Inr nt, w') \<Rightarrow> (Some (accessToken nt), w'))
            else (None, w)))"
proof -
  have sound: "(\<not> isTokenExpired tokenRefreshBuffer w \<and> secureStore w ACCESS_TOKEN = Some a
         \<and> snd (getValidAccessToken env w) = w)
      \<or> (isTokenExpired tokenRefreshBuffer w
         \<and> (\<exists>r nt w'. secureStore w REFRESH_TOKEN = Some r
               \<and> refreshAccessToken env r w = (Inr nt, w') \<and> a = accessToken nt
               \<and> snd (getValidAccessToken env w) = w'))"
    if ret: "fst (getValidAccessToken env w) = Some a" for a
  proof (cases "getTokens w")
    case (Inl err)
    with ret show ?thesis by (simp add: getValidAccessToken_def)
  next
    case (Inr stored)
    show ?thesis
    proof (cases stored)
      case None
      with Inr ret show ?thesis by (simp add: getValidAccessToken_def)
    next
      case (Some t)
      have acc: "secureStore w ACCESS_TOKEN = Some (accessToken t)"
        and rt: "refreshToken t = orUndefined (secureStore w REFRESH_TOKEN)"
        using Inr Some
        by (auto simp: getTokens_def Let_def truthy_def split: if_splits option.splits)
      show ?thesis
      proof (cases "isTokenExpired tokenRefreshBuffer w")
        case False
        with ret Inr Some acc show ?thesis by (simp add: getValidAccessToken_def Let_def)
      next
        case True
        show ?thesis
        proof (cases "truthy (refreshToken t)")
          case False
          with ret Inr Some True show ?thesis by (simp add: getValidAccessToken_def Let_def)
        next
          case tr: True
          then have r: "secureStore w REFRESH_TOKEN = Some (the (refreshToken t))"
            using rt by (auto simp: orUndefined_def truthy_def split: if_splits option.splits)
          obtain res w' where rf: "refreshAccessToken env (the (refreshToken t)) w = (res, w')"
            by (cases "refreshAccessToken env (the (refreshToken t)) w") auto
          show ?thesis
          proof (cases res)
            case (Inl err)
            with ret Inr Some True tr rf show ?thesis
              by (simp add: getValidAccessToken_def Let_def)
          next
            case (Inr nt)
            with ret \<open>getTokens w = Inr stored\<close> Some True tr rf r show ?thesis
              by (auto simp: getValidAccessToken_def Let_def)
          qed
        qed
      qed
    qed
  qed
  have cases: "getValidAccessToken env w =
           (if tokenRefreshBuffer * 1000 < e - now w then (Some a0, w)
            else if truthy (secureStore w REFRESH_TOKEN) then
              (case refreshAccessToken env (the (secureStore w REFRESH_TOKEN)) w of
                 (Inl err, w') \<Rightarrow> (None, w')
               | (Inr nt, w') \<Rightarrow> (Some (accessToken nt), w'))
            else (None, w))"
    if rd: "\<not> getFails w ACCESS_TOKEN" "\<not> getFails w REFRESH_TOKEN" "\<not> getFails w ID_TOKEN"
        "\<not> getFails w EXPIRES_AT" "\<not> getFails w TOKEN_TYPE"
      and st: "secureStore w ACCESS_TOKEN = Some a0" "a0 \<noteq> []"
        "secureStore w EXPIRES_AT = Some (decimal e)"
        "secureStore w TOKEN_TYPE = Some ty" "ty \<noteq> []"
      and ex: "exact e" "exact (now w)" "exact (e - now w)"
  proof -
    note gt = getTokens_stored [OF rd st ex]
    have b: "exact tokenRefreshBuffer" "exact (tokenRefreshBuffer * 1000)"
      by (simp_all add: tokenRefreshBuffer_def exact_def MAX_SAFE_INTEGER_def)
    note ie = isTokenExpired_stored [OF rd(4) st(3) ex b]
    show ?thesis
      by (simp add: getValidAccessToken_def gt ie Let_def truthy_orUndefined orUndefined_truthy
          not_less split: prod.splits sum.splits)
  qed
  show ?thesis using sound cases by blast
qed

theorem getValidAccessToken_cases_witness:
  "getValidAccessToken okEnv validDevice = (Some ''a1'', validDevice)
   \<and> fst (getValidAccessToken okEnv expiredDevice) = Some ''a3''
   \<and> fst (getValidAccessToken offlineEnv expiredDevice) = None
   \<and> getValidAccessToken okEnv expiredNoRefreshDevice = (None, expiredNoRefreshDevice)
   \<and> \<not> isTokenExpired tokenRefreshBuffer validDevice
   \<and> secureStore validDevice ACCESS_TOKEN = Some ''a1''"
proof -
  have a: "getValidAccessToken okEnv validDevice = (Some ''a1'', validDevice)"
    using getValidAccessToken_cases
      [of okEnv validDevice "''a1''" 1700003600000 "''Bearer''"]
    by (simp add: validDevice_def emptyDevice_def storage_keys tokenRefreshBuffer_def
        decimal_numeral exact_def MAX_SAFE_INTEGER_def)
  have ep: "tokenEndpoint okEnv (RefreshGrant ''r0'') = Ok (okTokenData\<lparr>expires_in := 3600\<rparr>)"
    by (simp add: okEnv_def okTokenData_def)
  have rf: "refreshAccessToken okEnv ''r0'' expiredDevice =
      (Inr \<lparr>accessToken = ''a3'', refreshToken = Some ''r0'', idToken = None,
            expiresIn = Num 3600, tokenType = ''Bearer''\<rparr>,
       expiredDevice\<lparr>secureStore :=
         [ACCESS_TOKEN \<mapsto> ''a3'', REFRESH_TOKEN \<mapsto> ''r0'',
          EXPIRES_AT \<mapsto> decimal (1700000000000 + 3600 * 1000), TOKEN_TYPE \<mapsto> ''Bearer'']\<rparr>)"
    by (rule refreshAccessToken_expiredDevice [OF ep]) simp_all
  have st: "secureStore expiredDevice REFRESH_TOKEN = Some ''r0''"
    "secureStore expiredDevice ACCESS_TOKEN = Some ''a0''"
    "secureStore expiredDevice EXPIRES_AT = Some (decimal 1699999000000)"
    "secureStore expiredDevice TOKEN_TYPE = Some ''Bearer''"
    "now expiredDevice = 1700000000000"
    by (simp_all add: expiredDevice_def emptyDevice_def storage_keys decimal_numeral)
  have b: "fst (getValidAccessToken okEnv expiredDevice) = Some ''a3''"
    using getValidAccessToken_cases
      [of okEnv expiredDevice "''a0''" 1699999000000 "''Bearer''"]
      expiredDevice_accepts(2)
    by (simp add: st rf truthy_def tokenRefreshBuffer_def exact_def MAX_SAFE_INTEGER_def)
  have rf': "refreshAccessToken offlineEnv ''r0'' expiredDevice =
      (Inl (AuthError REFRESH_FAILED ''Failed to refresh access token'' (Some (Error ''fetch''))),
       expiredDevice)"
    by (simp add: refreshAccessToken_def offlineEnv_def okEnv_def)
  have c: "fst (getValidAccessToken offlineEnv expiredDevice) = None"
    using getValidAccessToken_cases
      [of offlineEnv expiredDevice "''a0''" 1699999000000 "''Bearer''"]
      expiredDevice_accepts(2)
    by (simp add: st rf' truthy_def tokenRefreshBuffer_def exact_def MAX_SAFE_INTEGER_def)
  have d: "getValidAccessToken okEnv expiredNoRefreshDevice = (None, expiredNoRefreshDevice)"
    using getValidAccessToken_cases
      [of okEnv expiredNoRefreshDevice "''a0''" 1699999000000 "''Bearer''"]
    by (simp add: expiredNoRefreshDevice_def emptyDevice_def storage_keys tokenRefreshBuffer_def
        decimal_numeral truthy_def exact_def MAX_SAFE_INTEGER_def)
  have e: "\<not> isTokenExpired tokenRefreshBuffer validDevice
      \<and> secureStore validDevice ACCESS_TOKEN = Some ''a1''"
    using getValidAccessToken_cases
      [of okEnv validDevice "''a1''" 1700003600000 "''Bearer''"] a b
    by (auto simp: validDevice_def emptyDevice_def storage_keys)
  show ?thesis using a b c d e by simp
qed

section \<open>Authentication context: properties\<close>

subsection \<open>The calls of each operation\<close>

lemma logout_updates: "snd (logout w) = [setLoading, setAuthLoggedOut]"
  by (simp add: logout_def split: prod.splits sum.splits)

lemma restore_updates:
  "f \<in> set (snd (attemptSessionRestore env w)) \<Longrightarrow>
     (\<exists>u t. f = setAuthSuccess u t) \<or> f = setAuthLoggedOut"
  by (auto simp: attemptSessionRestore_def split: prod.splits sum.splits option.splits)

lemma login_updates:
  "f \<in> set (snd (login env w)) \<Longrightarrow>
     f = setLoading \<or> (\<exists>u t. f = setAuthSuccess u t) \<or> (\<exists>m. f = setAuthError m)"
  by (auto simp: login_def split: prod.splits sum.splits)

lemma refreshToken_catch_updates:
  "snd (refreshToken_catch w) =
     [setLoading, setAuthLoggedOut, setAuthError ''Your session has expired. Please log in again'']"
  by (simp add: refreshToken_catch_def split_beta logout_updates)

lemma refreshToken_updates:
  "(\<exists>nt. snd (refreshToken' env w) = [setNewTokens nt])
   \<or> snd (refreshToken' env w) =
       [setLoading, setAuthLoggedOut, setAuthError ''Your session has expired. Please log in again'']"
  by (auto simp: refreshToken'_def refreshToken_catch_updates
      split: prod.splits sum.splits option.splits)

lemma refresh_catch_no_session:
  "fst (restoreSession_refresh_catch w) \<noteq> Inr (Some x)"
  by (simp add: restoreSession_refresh_catch_def restoreSession_catch_def split_beta
      split: sum.splits)

lemma attemptSessionRestore_no_session:
  assumes "\<forall>x. fst (restoreSession env w) \<noteq> Inr (Some x)"
  shows "snd (attemptSessionRestore env w) = [setAuthLoggedOut]"
  using assms
  by (auto simp: attemptSessionRestore_def split: prod.splits sum.splits option.splits)

lemma fst_attemptSessionRestore: "fst (attemptSessionRestore env w) = snd (restoreSession env w)"
  by (auto simp: attemptSessionRestore_def split: prod.splits sum.splits option.splits)

lemma login_cancelled:
  assumes "promptAsync env (generateCodeChallenge env (generateCodeVerifier env)) = Inr Cancel"
  shows "login env w = (w, [setLoading, setAuthError ''Login was cancelled''])"
  using assms by (simp add: login_def loginWithWorkOS_def Let_def)

lemma login_ok:
  assumes "\<forall>k. \<not> setFails w k"
  shows "snd (login okEnv w) =
     [setLoading, setAuthSuccess okUser
        \<lparr>accessToken = ''a3'', refreshToken = None, idToken = None, expiresIn = Num 3600,
         tokenType = ''Bearer''\<rparr>]"
  by (simp add: login_def loginWithWorkOS_def Let_def okEnv_def truthy_def
      exchangeCodeForTokens_def okTokenData_def storeTokens_store [OF assms]
      fetchUserInfo_def okUserInfo_def okUser_def)

lemma login_offline:
  "login offlineEnv w =
     (w, [setLoading, setAuthError ''Network error. Please check your connection and try again''])"
  by (simp add: login_def loginWithWorkOS_def Let_def offlineEnv_def okEnv_def truthy_def
      exchangeCodeForTokens_def)

subsection \<open>login\<close>

text \<open>
  C1 (the code at the failing input). From the idle state, with a browser that
  reports cancellation, \<open>login\<close> ends in the idle state but for the error
  field, which holds the message \<open>Login was cancelled\<close>.
\<close>

theorem login_cancel_surfaces_error:
  "run (snd (login cancelEnv emptyDevice)) idleState
     = idleState\<lparr>error := Some ''Login was cancelled''\<rparr>"
  by (subst login_cancelled)
     (simp_all add: cancelEnv_def okEnv_def run_def setLoading_def setAuthError_def idleState_def)

subsection \<open>logout\<close>

text \<open>
  C7. \<open>logout\<close> ends in the idle state (no user, no tokens, not loading, not
  authenticated, no error) from every state and on every device, whether
  \<open>clearTokens\<close> succeeds or throws.
\<close>

theorem logout_always_idle:
  "run (snd (logout w)) s = idleState"
  by (simp add: logout_updates run_def setAuthLoggedOut_def idleState_def)

theorem logout_always_idle_witness:
  "fst (clearTokens brokenDevice) = Inl (Error ''Failed to clear authentication tokens'')
   \<and> fst (clearTokens expiredDevice) = Inr ()
   \<and> run (snd (logout brokenDevice)) authenticatedState = idleState
   \<and> run (snd (logout expiredDevice)) authenticatedState = idleState"
  using logout_always_idle [of brokenDevice authenticatedState]
    logout_always_idle [of expiredDevice authenticatedState]
  by (simp add: clearTokens_def deleteItemAsync_def brokenDevice_def expiredDevice_def
      emptyDevice_def)

subsection \<open>Session restoration\<close>

text \<open>
  C6. When \<open>restoreSession\<close> finds stored tokens that are expired (within the
  configured buffer) with a refresh token, and the refresh fails, the session
  ends in the idle state, with no error; and on a keystore that performs the
  deletes, the five stored entries are gone.
\<close>

theorem restoreSession_refresh_failure:
  assumes "getTokens w = Inr (Some t)" and "isTokenExpired tokenRefreshBuffer w"
    and "truthy (refreshToken t)"
    and "refreshAccessToken env (the (refreshToken t)) w = (Inl e, w1)"
  shows "run (snd (attemptSessionRestore env w)) s = idleState
    \<and> ((\<forall>k. \<not> deleteFails w k) \<longrightarrow>
         secureStore (fst (attemptSessionRestore env w)) ACCESS_TOKEN = None
       \<and> secureStore (fst (attemptSessionRestore env w)) REFRESH_TOKEN = None
       \<and> secureStore (fst (attemptSessionRestore env w)) ID_TOKEN = None
       \<and> secureStore (fst (attemptSessionRestore env w)) EXPIRES_AT = None
       \<and> secureStore (fst (attemptSessionRestore env w)) TOKEN_TYPE = None)"
proof -
  have rs: "restoreSession env w = restoreSession_refresh_catch w1"
    using assms by (simp add: restoreSession_def Let_def)
  have "snd (attemptSessionRestore env w) = [setAuthLoggedOut]"
    by (rule attemptSessionRestore_no_session) (simp add: rs refresh_catch_no_session)
  then have session: "run (snd (attemptSessionRestore env w)) s = idleState"
    by (simp add: run_def setAuthLoggedOut_def idleState_def)
  have df: "deleteFails w1 = deleteFails w"
    using refreshAccessToken_deleteFails [of env "the (refreshToken t)" w] assms(4) by simp
  have cleared: "secureStore (fst (attemptSessionRestore env w)) k = None"
    if nofail: "\<forall>k. \<not> deleteFails w k"
      and k: "k \<in> {ACCESS_TOKEN, REFRESH_TOKEN, ID_TOKEN, EXPIRES_AT, TOKEN_TYPE}" for k
  proof -
    have "\<forall>k. \<not> deleteFails w1 k" using nofail df by simp
    then have "restoreSession_refresh_catch w1 =
        (Inr None, w1\<lparr>secureStore := (secureStore w1)(ACCESS_TOKEN := None, REFRESH_TOKEN := None,
        ID_TOKEN := None, EXPIRES_AT := None, TOKEN_TYPE := None)\<rparr>)"
      by (simp add: restoreSession_refresh_catch_def clearTokens_clears)
    then show ?thesis using k by (auto simp: fst_attemptSessionRestore rs)
  qed
  show ?thesis using session cleared by simp
qed

theorem restoreSession_refresh_failure_witness:
  "run (snd (attemptSessionRestore offlineEnv expiredDevice)) initialAuthState = idleState
   \<and> secureStore (fst (attemptSessionRestore offlineEnv expiredDevice)) ACCESS_TOKEN = None
   \<and> secureStore (fst (attemptSessionRestore offlineEnv expiredDevice)) REFRESH_TOKEN = None
   \<and> secureStore (fst (attemptSessionRestore offlineEnv expiredDevice)) EXPIRES_AT = None"
proof -
  have rf: "refreshAccessToken offlineEnv (the (Some ''r0'')) expiredDevice =
      (Inl (AuthError REFRESH_FAILED ''Failed to refresh access token'' (Some (Error ''fetch''))),
       expiredDevice)"
    by (simp add: refreshAccessToken_def offlineEnv_def okEnv_def)
  show ?thesis
    using restoreSession_refresh_failure
      [OF getTokens_expiredDevice isTokenExpired_expiredDevice _ _,
        of offlineEnv _ expiredDevice initialAuthState]
      rf expiredDevice_accepts(3)
    by (simp add: truthy_def)
qed

subsection \<open>The session state\<close>

lemma sessionInv_steps:
  "sessionInv initialAuthState"
  "sessionInv s \<Longrightarrow> sessionInv (setLoading s)"
  "sessionInv s \<Longrightarrow> sessionInv (setAuthSuccess u t s)"
  "sessionInv s \<Longrightarrow> sessionInv (setAuthLoggedOut s)"
  "sessionInv s \<Longrightarrow> sessionInv (setAuthError m s)"
  "sessionInv s \<Longrightarrow> sessionInv (setNewTokens nt s)"
  "sessionInv s \<Longrightarrow> sessionInv (clearError s)"
  by (simp_all add: sessionInv_def initialAuthState_def setLoading_def setAuthSuccess_def
      setAuthLoggedOut_def setAuthError_def setNewTokens_def clearError_def)

lemma reachable_sessionInv: "reachable s \<Longrightarrow> sessionInv s"
proof (induction rule: reachable.induct)
  case reach_initial
  show ?case by (rule sessionInv_steps)
next
  case (reach_restore s f env w)
  then show ?case using restore_updates [of f env w] by (auto simp: sessionInv_steps)
next
  case (reach_login s f env w)
  then show ?case using login_updates [of f env w] by (auto simp: sessionInv_steps)
next
  case (reach_logout s f w)
  then show ?case by (auto simp: logout_updates sessionInv_steps)
next
  case (reach_refreshToken s f env w)
  then show ?case using refreshToken_updates [of env w] by (auto simp: sessionInv_steps)
next
  case (reach_clearError s)
  then show ?case by (simp add: sessionInv_steps)
qed

lemma reachable_run:
  assumes "\<And>f s. f \<in> set fs \<Longrightarrow> reachable s \<Longrightarrow> reachable (f s)" and "reachable s"
  shows "reachable (run fs s)"
  using assms unfolding run_def
proof (induction fs arbitrary: s)
  case Nil
  then show ?case by simp
next
  case (Cons f fs)
  have "reachable (f s)" using Cons.prems by simp
  then show ?case using Cons.IH Cons.prems(1) by simp
qed

lemma reachable_login: "reachable s \<Longrightarrow> reachable (run (snd (login env w)) s)"
  by (rule reachable_run) (auto intro: reach_login)

lemma reachable_restore: "reachable s \<Longrightarrow> reachable (run (snd (attemptSessionRestore env w)) s)"
  by (rule reachable_run) (auto intro: reach_restore)

lemma reachable_loggedInState: "reachable loggedInState"
  unfolding loggedInState_def startedState_def
  by (intro reachable_login reachable_restore reach_initial)

lemma reachable_failedLoginState: "reachable failedLoginState"
  unfolding failedLoginState_def
  by (intro reachable_login reachable_loggedInState)

lemma loggedInState_eq:
  "loggedInState =
     \<lparr>user = Some okUser,
      tokens = Some \<lparr>accessToken = ''a3'', refreshToken = None, idToken = None,
                     expiresIn = Num 3600, tokenType = ''Bearer''\<rparr>,
      isLoading = False, isAuthenticated = True, error = None\<rparr>"
  by (simp add: loggedInState_def login_ok [OF emptyDevice_accepts(1)] run_def setLoading_def
      setAuthSuccess_def)

text \<open>
  C8. In the initial state and in every state after any \<^verbatim>\<open>setAuthState\<close> call of
  login, logout, refreshToken or the session restoration (and of clearError),
  on their success and failure paths: authenticated exactly when there are a
  user and tokens.
\<close>

theorem session_invariant:
  "reachable s \<Longrightarrow> isAuthenticated s = (user s \<noteq> None \<and> tokens s \<noteq> None)"
  using reachable_sessionInv [of s] by (auto simp: sessionInv_def)

theorem session_invariant_witness:
  "reachable loggedInState \<and> isAuthenticated loggedInState
   \<and> user loggedInState \<noteq> None \<and> tokens loggedInState \<noteq> None
   \<and> reachable initialAuthState \<and> \<not> isAuthenticated initialAuthState"
  using session_invariant [OF reachable_loggedInState] session_invariant [OF reach_initial]
    reachable_loggedInState reach_initial
  by (simp add: loggedInState_eq initialAuthState_def)

text \<open>
  C2 (as the claim states it, refuted). Start with nothing stored, log in, then
  log in again while the token endpoint cannot be reached: the state that is
  reached has an error, and still the user and the tokens of the first login.
\<close>

theorem login_failure_keeps_user:
  "reachable failedLoginState
   \<and> error failedLoginState = Some ''Network error. Please check your connection and try again''
   \<and> user failedLoginState = Some okUser
   \<and> tokens failedLoginState \<noteq> None"
  by (simp add: reachable_failedLoginState)
     (simp add: failedLoginState_def loggedInState_eq login_offline run_def setLoading_def
        setAuthError_def)

text \<open>
  C2 (amended). A failed \<open>login\<close> sets the error and leaves the user and the
  tokens as they were before the call (null from the idle state, still set
  when authenticated). \<open>refreshToken\<close>, when a refresh token is stored and
  the refresh succeeds, replaces the tokens by the new ones, clears the error
  and keeps the rest; when the refresh fails, or the stored tokens cannot be
  read or have no refresh token, it ends in the idle state with the error
  set: on the refresh-failure path the user and the tokens are null.
\<close>

theorem error_state_user_tokens:
  "(\<forall>e w'. loginWithWorkOS env w = (Inl e, w') \<longrightarrow>
      run (snd (login env w)) s = s\<lparr>isLoading := False, error := Some (loginErrorMessage e)\<rparr>)
   \<and> (\<forall>t nt w'. getTokens w = Inr (Some t) \<and> truthy (refreshToken t)
         \<and> refreshAccessToken env (the (refreshToken t)) w = (Inr nt, w') \<longrightarrow>
      fst (refreshToken' env w) = w'
      \<and> run (snd (refreshToken' env w)) s = s\<lparr>tokens := Some nt, error := None\<rparr>)
   \<and> (\<forall>t e w'. getTokens w = Inr (Some t) \<and> truthy (refreshToken t)
         \<and> refreshAccessToken env (the (refreshToken t)) w = (Inl e, w') \<longrightarrow>
      run (snd (refreshToken' env w)) s =
        idleState\<lparr>error := Some ''Your session has expired. Please log in again''\<rparr>)
   \<and> ((\<forall>t. getTokens w = Inr (Some t) \<longrightarrow> \<not> truthy (refreshToken t)) \<longrightarrow>
      run (snd (refreshToken' env w)) s =
        idleState\<lparr>error := Some ''Your session has expired. Please log in again''\<rparr>)"
proof -
  have failed: "run (snd (refreshToken_catch w0)) s =
      idleState\<lparr>error := Some ''Your session has expired. Please log in again''\<rparr>" for w0
    by (simp add: refreshToken_catch_updates run_def setLoading_def setAuthLoggedOut_def
        setAuthError_def idleState_def)
  have a: "run (snd (login env w)) s = s\<lparr>isLoading := False, error := Some (loginErrorMessage e)\<rparr>"
    if "loginWithWorkOS env w = (Inl e, w')" for e w'
    using that by (simp add: login_def run_def setLoading_def setAuthError_def)
  have b: "fst (refreshToken' env w) = w'
      \<and> run (snd (refreshToken' env w)) s = s\<lparr>tokens := Some nt, error := None\<rparr>"
    if "getTokens w = Inr (Some t)" and "truthy (refreshToken t)"
      and "refreshAccessToken env (the (refreshToken t)) w = (Inr nt, w')" for t nt w'
    using that by (simp add: refreshToken'_def run_def setNewTokens_def)
  have c: "run (snd (refreshToken' env w)) s =
        idleState\<lparr>error := Some ''Your session has expired. Please log in again''\<rparr>"
    if "getTokens w = Inr (Some t)" and "truthy (refreshToken t)"
      and "refreshAccessToken env (the (refreshToken t)) w = (Inl e, w')" for t e w'
    using that by (simp add: refreshToken'_def failed)
  have d: "run (snd (refreshToken' env w)) s =
        idleState\<lparr>error := Some ''Your session has expired. Please log in again''\<rparr>"
    if "\<forall>t. getTokens w = Inr (Some t) \<longrightarrow> \<not> truthy (refreshToken t)"
    using that by (simp add: refreshToken'_def failed split: sum.splits option.splits)
  show ?thesis using a b c d by blast
qed

theorem error_state_user_tokens_witness:
  "run (snd (login offlineEnv expiredDevice)) idleState
     = idleState\<lparr>error := Some ''Network error. Please check your connection and try again''\<rparr>
   \<and> run (snd (login offlineEnv expiredDevice)) authenticatedState
     = authenticatedState\<lparr>error := Some ''Network error. Please check your connection and try again''\<rparr>
   \<and> run (snd (refreshToken' okEnv expiredDevice)) authenticatedState
     = authenticatedState\<lparr>tokens :=
         Some \<lparr>accessToken = ''a3'', refreshToken = Some ''r0'', idToken = None,
               expiresIn = Num 3600, tokenType = ''Bearer''\<rparr>\<rparr>
   \<and> run (snd (refreshToken' offlineEnv expiredDevice)) authenticatedState
     = idleState\<lparr>error := Some ''Your session has expired. Please log in again''\<rparr>
   \<and> run (snd (refreshToken' okEnv emptyDevice)) authenticatedState
     = idleState\<lparr>error := Some ''Your session has expired. Please log in again''\<rparr>"
proof -
  have lw: "loginWithWorkOS offlineEnv expiredDevice =
      (Inl (AuthError NETWORK_ERROR ''Failed to exchange authorization code for tokens''
              (Some (Error ''fetch''))), expiredDevice)"
    by (simp add: loginWithWorkOS_def Let_def offlineEnv_def okEnv_def truthy_def
        exchangeCodeForTokens_def)
  have a: "run (snd (login offlineEnv expiredDevice)) idleState
     = idleState\<lparr>error := Some ''Network error. Please check your connection and try again''\<rparr>"
    using error_state_user_tokens [of offlineEnv expiredDevice idleState] lw
    by (simp add: idleState_def)
  have b: "run (snd (login offlineEnv expiredDevice)) authenticatedState
     = authenticatedState\<lparr>error := Some ''Network error. Please check your connection and try again''\<rparr>"
    using error_state_user_tokens [of offlineEnv expiredDevice authenticatedState] lw
    by (simp add: authenticatedState_def setAuthSuccess_def)
  have ep: "tokenEndpoint okEnv (RefreshGrant ''r0'') = Ok (okTokenData\<lparr>expires_in := 3600\<rparr>)"
    by (simp add: okEnv_def okTokenData_def)
  have rf: "refreshAccessToken okEnv (the (Some ''r0'')) expiredDevice =
      (Inr \<lparr>accessToken = ''a3'', refreshToken = Some ''r0'', idToken = None,
            expiresIn = Num 3600, tokenType = ''Bearer''\<rparr>,
       expiredDevice\<lparr>secureStore :=
         [ACCESS_TOKEN \<mapsto> ''a3'', REFRESH_TOKEN \<mapsto> ''r0'',
          EXPIRES_AT \<mapsto> decimal (1700000000000 + 3600 * 1000), TOKEN_TYPE \<mapsto> ''Bearer'']\<rparr>)"
    using refreshAccessToken_expiredDevice [OF ep] by simp
  have c: "run (snd (refreshToken' okEnv expiredDevice)) authenticatedState
     = authenticatedState\<lparr>tokens :=
         Some \<lparr>accessToken = ''a3'', refreshToken = Some ''r0'', idToken = None,
               expiresIn = Num 3600, tokenType = ''Bearer''\<rparr>\<rparr>"
    using error_state_user_tokens [of okEnv expiredDevice authenticatedState]
      getTokens_expiredDevice rf
    by (simp add: truthy_def authenticatedState_def setAuthSuccess_def)
  have rf': "refreshAccessToken offlineEnv (the (Some ''r0'')) expiredDevice =
      (Inl (AuthError REFRESH_FAILED ''Failed to refresh access token'' (Some (Error ''fetch''))),
       expiredDevice)"
    by (simp add: refreshAccessToken_def offlineEnv_def okEnv_def)
  have d: "run (snd (refreshToken' offlineEnv expiredDevice)) authenticatedState
     = idleState\<lparr>error := Some ''Your session has expired. Please log in again''\<rparr>"
    using error_state_user_tokens [of offlineEnv expiredDevice authenticatedState]
      getTokens_expiredDevice rf'
    by (simp add: truthy_def)
  have gt: "getTokens emptyDevice = Inr None"
    by (simp add: getTokens_def emptyDevice_def truthy_def)
  have e: "run (snd (refreshToken' okEnv emptyDevice)) authenticatedState
     = idleState\<lparr>error := Some ''Your session has expired. Please log in again''\<rparr>"
    using error_state_user_tokens [of okEnv emptyDevice authenticatedState] gt
    by simp
  show ?thesis using a b c d e by simp
qed


end
